theory Spec2Isabelle
  imports Main
begin

section \<open>The cloud metadata scanner (main.py)\<close>

text \<open>
  The program is one Python file: a class \<open>MetadataScanner\<close> with the methods
  \<open>scan_endpoint\<close> and \<open>scan_all_endpoints\<close>, and a command-line \<open>main\<close>.
  Everything the code does beyond returning a value is explicit here: HTTP requests,
  log lines, printed lines and written files are recorded in a \<open>world\<close> that every
  function takes and returns; exceptions are values of the type \<open>exn\<close>, and a
  \<open>try\<close> block is a function into \<open>exn + result\<close> followed by its handlers.
  What lies outside the program (the network behind \<open>requests.get\<close>, the decoder
  behind \<open>response.json()\<close>, \<open>repr\<close>, the file system) is a parameter, the record
  \<open>env\<close>; the encoder and the decoder of the \<open>json\<close> module are written out.
\<close>

subsection \<open>Exceptions\<close>

text \<open>
  The exceptions the operations of the program raise, each with its \<open>str\<close>.
  \<open>HTTPError\<close>, \<open>ConnectionError\<close>, \<open>Timeout\<close> and \<open>OtherRequestException\<close>
  are classes of \<open>requests.exceptions\<close> below \<open>RequestException\<close>.
  \<open>RequestsJSONDecodeError\<close> is \<open>requests.exceptions.JSONDecodeError\<close>, which
  \<open>response.json()\<close> raises from requests 2.27 on: it inherits from
  \<open>InvalidJSONError\<close> (a \<open>RequestException\<close>) and from \<open>json.JSONDecodeError\<close>.
  \<open>JSONDecodeError\<close> is the standard library's \<open>json.JSONDecodeError\<close> (what
  \<open>response.json()\<close> raised before 2.27). \<open>OtherException\<close> is any other subclass
  of \<open>Exception\<close> (\<open>TypeError\<close>, \<open>OSError\<close>, ...). All of them are subclasses
  of \<open>Exception\<close>: they are what the operations of the program raise by themselves.
  A \<open>KeyboardInterrupt\<close>, which the interpreter raises when the user interrupts the
  run, is added in the section on interrupts below.
\<close>

datatype exn =
    KeyError string
  | HTTPError string
  | ConnectionError string
  | Timeout string
  | OtherRequestException string
  | RequestsJSONDecodeError string
  | JSONDecodeError string
  | OtherException string

fun exn_str :: "exn \<Rightarrow> string" where
  "exn_str (KeyError m) = m"
| "exn_str (HTTPError m) = m"
| "exn_str (ConnectionError m) = m"
| "exn_str (Timeout m) = m"
| "exn_str (OtherRequestException m) = m"
| "exn_str (RequestsJSONDecodeError m) = m"
| "exn_str (JSONDecodeError m) = m"
| "exn_str (OtherException m) = m"

text \<open>\<open>isinstance(e, requests.exceptions.RequestException)\<close>\<close>

fun is_RequestException :: "exn \<Rightarrow> bool" where
  "is_RequestException (HTTPError m) = True"
| "is_RequestException (ConnectionError m) = True"
| "is_RequestException (Timeout m) = True"
| "is_RequestException (OtherRequestException m) = True"
| "is_RequestException (RequestsJSONDecodeError m) = True"
| "is_RequestException (KeyError m) = False"
| "is_RequestException (JSONDecodeError m) = False"
| "is_RequestException (OtherException m) = False"

text \<open>\<open>isinstance(e, json.JSONDecodeError)\<close>\<close>

fun is_JSONDecodeError :: "exn \<Rightarrow> bool" where
  "is_JSONDecodeError (RequestsJSONDecodeError m) = True"
| "is_JSONDecodeError (JSONDecodeError m) = True"
| "is_JSONDecodeError (KeyError m) = False"
| "is_JSONDecodeError (HTTPError m) = False"
| "is_JSONDecodeError (ConnectionError m) = False"
| "is_JSONDecodeError (Timeout m) = False"
| "is_JSONDecodeError (OtherRequestException m) = False"
| "is_JSONDecodeError (OtherException m) = False"

subsection \<open>Requests, responses and values\<close>

text \<open>
  The keyword arguments of the one call \<open>requests.get(url, timeout=..., headers=...,
  allow_redirects=...)\<close>. A headers dictionary is an association list; \<open>None\<close> is
  Python's \<open>None\<close>.
\<close>

record request =
  req_url :: string
  req_timeout :: int
  req_headers :: "(string \<times> string) list option"
  req_allow_redirects :: bool

text \<open>What the program reads of a \<open>requests.Response\<close>.\<close>

record response =
  status_code :: int
  reason :: string
  resp_url :: string
  resp_text :: string

text \<open>
  The second component of \<open>scan_endpoint\<close>'s result: a Python \<open>str\<close>, or the object
  \<open>response.json()\<close> returned. The program never looks inside a decoded object, so its
  type is the parameter \<open>'j\<close>.
\<close>

datatype 'j pyval = PStr string | PJson 'j

text \<open>The dictionary \<open>{"success": success, "data": data}\<close>.\<close>

record 'j probe_result =
  success :: bool
  data :: "'j pyval"

datatype level = INFO | ERROR

record world =
  sent :: "request list"
  logged :: "(level \<times> string) list"
  stdout :: "string list"
  files :: "string \<rightharpoonup> string"

definition logging_info :: "string \<Rightarrow> world \<Rightarrow> world" where
  "logging_info msg w = w\<lparr>logged := logged w @ [(INFO, msg)]\<rparr>"

definition logging_error :: "string \<Rightarrow> world \<Rightarrow> world" where
  "logging_error msg w = w\<lparr>logged := logged w @ [(ERROR, msg)]\<rparr>"

definition py_print :: "string \<Rightarrow> world \<Rightarrow> world" where
  "py_print msg w = w\<lparr>stdout := stdout w @ [msg]\<rparr>"

subsection \<open>Response.raise_for_status\<close>

text \<open>Decimal digits of a natural number, and \<open>str\<close> of an integer.\<close>

fun digits_of :: "nat \<Rightarrow> string" where
  "digits_of n =
     (if n < 10 then [char_of (48 + n)]
      else digits_of (n div 10) @ [char_of (48 + n mod 10)])"

declare digits_of.simps [simp del]

definition str_int :: "int \<Rightarrow> string" where
  "str_int i = (if i < 0 then CHR ''-'' # digits_of (nat (- i)) else digits_of (nat i))"

text \<open>
  The library method: it raises \<open>HTTPError\<close> exactly for the status codes 400 to 599
  (the comment at the call says "4xx or 5xx"), and returns otherwise.
\<close>

definition raise_for_status :: "response \<Rightarrow> exn option" where
  "raise_for_status r =
     (if 400 \<le> status_code r \<and> status_code r < 500 then
        Some (HTTPError (str_int (status_code r) @ '' Client Error: '' @ reason r
                         @ '' for url: '' @ resp_url r))
      else if 500 \<le> status_code r \<and> status_code r < 600 then
        Some (HTTPError (str_int (status_code r) @ '' Server Error: '' @ reason r
                         @ '' for url: '' @ resp_url r))
      else None)"

subsection \<open>Dictionaries\<close>

text \<open>
  A Python dict is an association list in insertion order. \<open>dict_set\<close> is the
  assignment \<open>d[k] = v\<close>, as in \<open>results[provider] = ...\<close> (lines 87 and 155): an
  existing key keeps its place, a new key goes last.
\<close>

fun dict_set :: "('k \<times> 'v) list \<Rightarrow> 'k \<Rightarrow> 'v \<Rightarrow> ('k \<times> 'v) list" where
  "dict_set [] k v = [(k, v)]"
| "dict_set ((k', v') # kvs) k v =
     (if k' = k then (k, v) # kvs else (k', v') # dict_set kvs k v)"

subsection \<open>The json module\<close>

text \<open>
  The values \<open>json.dumps\<close> encodes and \<open>json.loads\<close> returns: \<open>None\<close>, a bool, an
  int, a \<open>str\<close>, a list, and a dict with string keys, kept as an association list in
  insertion order. A float is not modelled. Strings are lists of 8-bit characters, read
  as the code points 0 to 255.
\<close>

datatype json =
    JNull | JBool bool | JInt int | JString string
  | JArray "json list" | JObject "(string \<times> json) list"

text \<open>
  The encoder, as \<open>json.dumps(obj, indent=4)\<close> and \<open>json.dump(obj, f, indent=4)\<close>
  set it up: \<open>ensure_ascii=True\<close>, the separators \<open>,\<close> and \<open>: \<close>, and each
  item on a line of its own, indented by four spaces a level. \<open>escape_char\<close> is one
  character of a string (the short escapes, \<open>\u00XX\<close> in lower case for every other
  character outside the printable ASCII range). \<open>iterencode\<close> is the sequence of chunks
  the encoder yields; \<open>json.dumps\<close> joins them, \<open>json.dump\<close> writes them to the file
  one after the other.
\<close>

definition hex_digit :: "nat \<Rightarrow> char" where
  "hex_digit n = (if n < 10 then char_of (48 + n) else char_of (87 + n))"

definition escape_char :: "char \<Rightarrow> string" where
  "escape_char c =
     (if c = CHR 0x22 then [CHR 0x5C, CHR 0x22]
      else if c = CHR 0x5C then [CHR 0x5C, CHR 0x5C]
      else if c = CHR 0x0A then [CHR 0x5C, CHR ''n'']
      else if c = CHR 0x0D then [CHR 0x5C, CHR ''r'']
      else if c = CHR 0x09 then [CHR 0x5C, CHR ''t'']
      else if c = CHR 0x08 then [CHR 0x5C, CHR ''b'']
      else if c = CHR 0x0C then [CHR 0x5C, CHR ''f'']
      else if 32 \<le> (of_char c :: nat) \<and> (of_char c :: nat) \<le> 126 then [c]
      else [CHR 0x5C, CHR ''u'', CHR ''0'', CHR ''0'',
            hex_digit ((of_char c :: nat) div 16), hex_digit ((of_char c :: nat) mod 16)])"

definition encode_string :: "string \<Rightarrow> string" where
  "encode_string s = CHR 0x22 # concat (map escape_char s) @ [CHR 0x22]"

definition newline_indent :: "nat \<Rightarrow> string" where
  "newline_indent level = CHR 0x0A # replicate (4 * level) CHR '' ''"

fun separated :: "string \<Rightarrow> string list list \<Rightarrow> string list" where
  "separated sep [] = []"
| "separated sep [x] = x"
| "separated sep (x # y # ys) = x @ sep # separated sep (y # ys)"

fun iterencode :: "nat \<Rightarrow> json \<Rightarrow> string list" where
  "iterencode level JNull = [''null'']"
| "iterencode level (JBool b) = [if b then ''true'' else ''false'']"
| "iterencode level (JInt i) = [str_int i]"
| "iterencode level (JString s) = [encode_string s]"
| "iterencode level (JArray xs) =
     (if xs = [] then [''[]'']
      else [''['', newline_indent (Suc level)]
           @ separated (CHR '','' # newline_indent (Suc level))
               (map (iterencode (Suc level)) xs)
           @ [newline_indent level, '']''])"
| "iterencode level (JObject kvs) =
     (if kvs = [] then [''{}'']
      else [''{'', newline_indent (Suc level)]
           @ separated (CHR '','' # newline_indent (Suc level))
               (map (\<lambda>(k, v). encode_string k # '': '' # iterencode (Suc level) v) kvs)
           @ [newline_indent level, ''}''])"

definition json_text :: "nat \<Rightarrow> json \<Rightarrow> string" where
  "json_text level v = concat (iterencode level v)"

definition json_dumps :: "json \<Rightarrow> string" where
  "json_dumps v = json_text 0 v"

text \<open>
  The decoder, \<open>json.loads\<close>: white space is skipped around every token; a string
  admits the escapes of JSON and no raw control character; a number is an optional minus
  sign and digits without a leading zero (a fraction or an exponent makes it a float,
  which is not modelled: \<open>None\<close>); the pairs of an object are made a dict, so a key
  that comes twice keeps its first place and its last value. \<open>None\<close> is a
  \<open>JSONDecodeError\<close>. The recursion of the decoder is bounded by a fuel that
  \<open>json_loads\<close> sets to the length of the text, which no value's text exhausts
  (lemma \<open>fuel_for_le_length\<close>).
\<close>

definition is_ws :: "char \<Rightarrow> bool" where
  "is_ws c = (c = CHR '' '' \<or> c = CHR 0x0A \<or> c = CHR 0x0D \<or> c = CHR 0x09)"

definition skip_ws :: "string \<Rightarrow> string" where
  "skip_ws s = dropWhile is_ws s"

definition hex_value :: "char \<Rightarrow> nat option" where
  "hex_value c =
     (let n = (of_char c :: nat)
      in if 48 \<le> n \<and> n \<le> 57 then Some (n - 48)
         else if 97 \<le> n \<and> n \<le> 102 then Some (n - 87)
         else if 65 \<le> n \<and> n \<le> 70 then Some (n - 55)
         else None)"

definition hex4 :: "char \<Rightarrow> char \<Rightarrow> char \<Rightarrow> char \<Rightarrow> nat option" where
  "hex4 a b c d =
     (case (hex_value a, hex_value b, hex_value c, hex_value d) of
        (Some x, Some y, Some z, Some u) \<Rightarrow> Some (((x * 16 + y) * 16 + z) * 16 + u)
      | _ \<Rightarrow> None)"

definition unescape :: "char \<Rightarrow> char option" where
  "unescape e =
     (if e = CHR 0x22 then Some (CHR 0x22)
      else if e = CHR 0x5C then Some (CHR 0x5C)
      else if e = CHR ''/'' then Some (CHR ''/'')
      else if e = CHR ''n'' then Some (CHR 0x0A)
      else if e = CHR ''r'' then Some (CHR 0x0D)
      else if e = CHR ''t'' then Some (CHR 0x09)
      else if e = CHR ''b'' then Some (CHR 0x08)
      else if e = CHR ''f'' then Some (CHR 0x0C)
      else None)"

fun parse_chars :: "string \<Rightarrow> (string \<times> string) option" where
  "parse_chars [] = None"
| "parse_chars (c # cs) =
     (if c = CHR 0x22 then Some ([], cs)
      else if c = CHR 0x5C then
        (case cs of
           [] \<Rightarrow> None
         | e # cs1 \<Rightarrow>
             if e = CHR ''u'' then
               (case cs1 of
                  a # b # c2 # d # cs2 \<Rightarrow>
                    (case hex4 a b c2 d of
                       None \<Rightarrow> None
                     | Some n \<Rightarrow>
                         if n < 256 then
                           map_option (\<lambda>(s, r). (char_of n # s, r)) (parse_chars cs2)
                         else None)
                | _ \<Rightarrow> None)
             else
               (case unescape e of
                  None \<Rightarrow> None
                | Some ch \<Rightarrow> map_option (\<lambda>(s, r). (ch # s, r)) (parse_chars cs1)))
      else if (of_char c :: nat) < 32 then None
      else map_option (\<lambda>(s, r). (c # s, r)) (parse_chars cs))"

definition is_digit :: "char \<Rightarrow> bool" where
  "is_digit c = (48 \<le> (of_char c :: nat) \<and> (of_char c :: nat) \<le> 57)"

definition nat_of_digits :: "string \<Rightarrow> nat" where
  "nat_of_digits ds = foldl (\<lambda>n c. 10 * n + ((of_char c :: nat) - 48)) 0 ds"

definition parse_number :: "string \<Rightarrow> (json \<times> string) option" where
  "parse_number s =
     (let neg = (s \<noteq> [] \<and> hd s = CHR ''-'');
          s1 = (if neg then tl s else s);
          ds = takeWhile is_digit s1;
          rest = dropWhile is_digit s1
      in if ds = [] then None
         else if hd ds = CHR ''0'' \<and> tl ds \<noteq> [] then None
         else if rest \<noteq> [] \<and> (hd rest = CHR ''.'' \<or> hd rest = CHR ''e'' \<or> hd rest = CHR ''E'')
              then None
         else Some (JInt (if neg then - int (nat_of_digits ds) else int (nat_of_digits ds)),
                    rest))"

definition dict_of :: "('k \<times> 'v) list \<Rightarrow> ('k \<times> 'v) list" where
  "dict_of pairs = foldl (\<lambda>d (k, v). dict_set d k v) [] pairs"

fun parse_value :: "nat \<Rightarrow> string \<Rightarrow> (json \<times> string) option"
  and parse_elements :: "nat \<Rightarrow> string \<Rightarrow> (json list \<times> string) option"
  and parse_members :: "nat \<Rightarrow> string \<Rightarrow> ((string \<times> json) list \<times> string) option" where
  "parse_value 0 s = None"
| "parse_value (Suc f) s =
     (case skip_ws s of
        [] \<Rightarrow> None
      | c # cs \<Rightarrow>
          if c = CHR 0x22 then map_option (\<lambda>(str, r). (JString str, r)) (parse_chars cs)
          else if c = CHR ''['' then
            (if skip_ws cs \<noteq> [] \<and> hd (skip_ws cs) = CHR '']''
             then Some (JArray [], tl (skip_ws cs))
             else map_option (\<lambda>(xs, r). (JArray xs, r)) (parse_elements f cs))
          else if c = CHR ''{'' then
            (if skip_ws cs \<noteq> [] \<and> hd (skip_ws cs) = CHR ''}''
             then Some (JObject [], tl (skip_ws cs))
             else map_option (\<lambda>(kvs, r). (JObject (dict_of kvs), r)) (parse_members f cs))
          else if take 4 (c # cs) = ''null'' then Some (JNull, drop 4 (c # cs))
          else if take 4 (c # cs) = ''true'' then Some (JBool True, drop 4 (c # cs))
          else if take 5 (c # cs) = ''false'' then Some (JBool False, drop 5 (c # cs))
          else parse_number (c # cs))"
| "parse_elements 0 s = None"
| "parse_elements (Suc f) s =
     (case parse_value f s of
        None \<Rightarrow> None
      | Some (v, r) \<Rightarrow>
          (case skip_ws r of
             [] \<Rightarrow> None
           | c # r1 \<Rightarrow>
               if c = CHR '','' then map_option (\<lambda>(vs, r2). (v # vs, r2)) (parse_elements f r1)
               else if c = CHR '']'' then Some ([v], r1)
               else None))"
| "parse_members 0 s = None"
| "parse_members (Suc f) s =
     (case skip_ws s of
        [] \<Rightarrow> None
      | q # cs \<Rightarrow>
          if q = CHR 0x22 then
            (case parse_chars cs of
               None \<Rightarrow> None
             | Some (k, r) \<Rightarrow>
                 (case skip_ws r of
                    [] \<Rightarrow> None
                  | c # r1 \<Rightarrow>
                      if c = CHR '':'' then
                        (case parse_value f r1 of
                           None \<Rightarrow> None
                         | Some (v, r2) \<Rightarrow>
                             (case skip_ws r2 of
                                [] \<Rightarrow> None
                              | d # r3 \<Rightarrow>
                                  if d = CHR '','' then
                                    map_option (\<lambda>(kvs, r4). ((k, v) # kvs, r4))
                                      (parse_members f r3)
                                  else if d = CHR ''}'' then Some ([(k, v)], r3)
                                  else None))
                      else None))
          else None)"

definition json_loads :: "string \<Rightarrow> json option" where
  "json_loads s =
     (case parse_value (Suc (length s)) s of
        None \<Rightarrow> None
      | Some (v, r) \<Rightarrow> if skip_ws r = [] then Some v else None)"

text \<open>The keys of every dict are distinct: the invariant of a Python dict.\<close>

fun json_wf :: "json \<Rightarrow> bool" where
  "json_wf (JArray xs) = list_all json_wf xs"
| "json_wf (JObject kvs) = (distinct (map fst kvs) \<and> list_all (\<lambda>(k, v). json_wf v) kvs)"
| "json_wf v = True"

subsection \<open>What lies outside the program\<close>

text \<open>
  \<open>http_get\<close> is \<open>requests.get\<close>: given the requests issued so far and the new one,
  it raises or returns a response. \<open>json_of\<close> is \<open>response.json()\<close>. \<open>py_repr\<close> is
  \<open>repr\<close> on strings (the \<open>str\<close> of a \<open>KeyError\<close> is the \<open>repr\<close> of the key).
  \<open>py_to_json\<close> is the value of the \<open>json\<close> module that a decoded object is.
  \<open>open_w\<close> is \<open>open(path, "w")\<close>: \<open>Some e\<close> when it raises \<open>e\<close>. \<open>write_w\<close>
  is the writing of the chunks to the open file and the closing of the file at the end
  of the \<open>with\<close> block: \<open>None\<close> when all of it succeeds, \<open>Some (e, kept)\<close> when a
  write or the close raises \<open>e\<close> and the file is left holding \<open>kept\<close>.
\<close>

record 'j env =
  http_get :: "request list \<Rightarrow> request \<Rightarrow> exn + response"
  json_of :: "response \<Rightarrow> exn + 'j"
  py_repr :: "string \<Rightarrow> string"
  py_to_json :: "'j \<Rightarrow> json"
  open_w :: "string \<Rightarrow> exn option"
  write_w :: "string \<Rightarrow> string list \<Rightarrow> (exn \<times> string) option"

subsection \<open>MetadataScanner\<close>

record MetadataScanner =
  timeout :: int
  user_agent :: string
  metadata_endpoints :: "(string \<times> string) list"

text \<open>\<open>__init__\<close>; the dictionary literal keeps its keys in the order written.\<close>

definition MetadataScanner_init :: "int \<Rightarrow> string \<Rightarrow> MetadataScanner" where
  "MetadataScanner_init t ua =
     \<lparr>timeout = t, user_agent = ua,
      metadata_endpoints =
        [(''AWS'', ''http://169.254.169.254/latest/meta-data/''),
         (''Azure'', ''http://169.254.169.254/metadata/instance?api-version=2020-09-01''),
         (''GCP'', ''http://metadata.google.internal/computeMetadata/v1/'')]\<rparr>"

text \<open>Lines 44 to 49: the headers after the provider's default is filled in.\<close>

definition provider_headers ::
  "string \<Rightarrow> (string \<times> string) list option \<Rightarrow> (string \<times> string) list option" where
  "provider_headers cloud_provider headers =
     (if cloud_provider = ''GCP'' then
        (if headers = None then Some [(''Metadata-Flavor'', ''Google'')] else headers)
      else if cloud_provider = ''Azure'' then
        (if headers = None then Some [(''Metadata'', ''true'')] else headers)
      else headers)"

text \<open>
  The body of the \<open>try\<close> block of \<open>scan_endpoint\<close> (lines 43 to 62): \<open>Inl e\<close> when it
  raises \<open>e\<close>, \<open>Inr metadata\<close> when it reaches \<open>return True, metadata\<close>.
\<close>

definition scan_endpoint_try ::
  "MetadataScanner \<Rightarrow> 'j env \<Rightarrow> string \<Rightarrow> (string \<times> string) list option \<Rightarrow> world
     \<Rightarrow> (exn + 'j pyval) \<times> world" where
  "scan_endpoint_try self env cloud_provider headers0 w =
     (case map_of (metadata_endpoints self) cloud_provider of
        None \<Rightarrow> (Inl (KeyError (py_repr env cloud_provider)), w)
      | Some url \<Rightarrow>
          (let headers = provider_headers cloud_provider headers0;
               w1 = logging_info (''Attempting to access '' @ cloud_provider
                                  @ '' metadata endpoint: '' @ url) w;
               rq = \<lparr>req_url = url, req_timeout = timeout self, req_headers = headers,
                     req_allow_redirects = False\<rparr>;
               w2 = w1\<lparr>sent := sent w1 @ [rq]\<rparr>
           in case http_get env (sent w1) rq of
                Inl e \<Rightarrow> (Inl e, w2)
              | Inr response \<Rightarrow>
                  (case raise_for_status response of
                     Some e \<Rightarrow> (Inl e, w2)
                   | None \<Rightarrow>
                       (case (if cloud_provider = ''Azure''
                              then map_sum id PJson (json_of env response)
                              else Inr (PStr (resp_text response))) of
                          Inl e \<Rightarrow> (Inl e, w2)
                        | Inr metadata \<Rightarrow>
                            (Inr metadata,
                             logging_info (''Successfully accessed '' @ cloud_provider
                                           @ '' metadata.'') w2)))))"

text \<open>
  The \<open>except\<close> clauses (lines 64 to 75), tried in the order written: the message of
  the first clause whose class the exception belongs to.
\<close>

definition error_message :: "string \<Rightarrow> exn \<Rightarrow> string" where
  "error_message cloud_provider e =
     (if is_RequestException e then
        ''Error accessing '' @ cloud_provider @ '' metadata: '' @ exn_str e
      else if is_JSONDecodeError e then
        ''Error decoding JSON response from '' @ cloud_provider @ '': '' @ exn_str e
      else ''An unexpected error occurred: '' @ exn_str e)"

definition scan_endpoint ::
  "MetadataScanner \<Rightarrow> 'j env \<Rightarrow> string \<Rightarrow> (string \<times> string) list option \<Rightarrow> world
     \<Rightarrow> (bool \<times> 'j pyval) \<times> world" where
  "scan_endpoint self env cloud_provider headers w =
     (case scan_endpoint_try self env cloud_provider headers w of
        (Inr metadata, w') \<Rightarrow> ((True, metadata), w')
      | (Inl e, w') \<Rightarrow>
          ((False, PStr (error_message cloud_provider e)),
           logging_error (error_message cloud_provider e) w'))"

text \<open>
  The loop of \<open>scan_all_endpoints\<close> (lines 85 to 87) and the loop of \<open>main\<close> (lines 153
  to 155) have the same body; \<open>scan_loop\<close> is that loop over the providers left.
\<close>

fun scan_loop ::
  "MetadataScanner \<Rightarrow> 'j env \<Rightarrow> string list \<Rightarrow> (string \<times> 'j probe_result) list \<Rightarrow> world
     \<Rightarrow> (string \<times> 'j probe_result) list \<times> world" where
  "scan_loop self env [] results w = (results, w)"
| "scan_loop self env (provider # rest) results w =
     (case scan_endpoint self env provider None w of
        ((success_v, data_v), w') \<Rightarrow>
          scan_loop self env rest
            (dict_set results provider \<lparr>success = success_v, data = data_v\<rparr>) w')"

definition scan_all_endpoints ::
  "MetadataScanner \<Rightarrow> 'j env \<Rightarrow> world \<Rightarrow> (string \<times> 'j probe_result) list \<times> world" where
  "scan_all_endpoints self env w =
     scan_loop self env (map fst (metadata_endpoints self)) [] w"

subsection \<open>The command line\<close>

text \<open>
  The namespace \<open>parse_args\<close> returns. \<open>setup_argparse\<close> gives \<open>--timeout\<close> the type
  int and the default 5, \<open>--user-agent\<close> its default, \<open>--output\<close> no default
  (\<open>None\<close>), and \<open>--providers\<close> one or more values (\<open>nargs="+"\<close>) among the choices.
\<close>

record args =
  arg_timeout :: int
  arg_user_agent :: string
  arg_output :: "string option"
  arg_providers :: "string list option"

definition default_args :: args where
  "default_args =
     \<lparr>arg_timeout = 5, arg_user_agent = ''vuln-Cloud-Metadata-Scanner/1.0'',
      arg_output = None, arg_providers = None\<rparr>"

text \<open>
  Lines 149 to 157 of \<open>main\<close>: the scanner is built and the providers are probed.
  \<open>if args.providers\<close> is a Python truth test: \<open>None\<close> and the empty list are
  false.
\<close>

definition main_scan ::
  "'j env \<Rightarrow> args \<Rightarrow> world \<Rightarrow> (string \<times> 'j probe_result) list \<times> world" where
  "main_scan env a w =
     (let scanner = MetadataScanner_init (arg_timeout a) (arg_user_agent a)
      in case arg_providers a of
           Some (p # ps) \<Rightarrow> scan_loop scanner env (p # ps) [] w
         | _ \<Rightarrow> scan_all_endpoints scanner env w)"

text \<open>
  The dictionary \<open>results\<close> as the \<open>json\<close> module sees it: a dict of dicts, each
  with the keys \<open>success\<close> and \<open>data\<close>.
\<close>

definition report_json :: "'j env \<Rightarrow> (string \<times> 'j probe_result) list \<Rightarrow> json" where
  "report_json env results =
     JObject (map (\<lambda>(k, r). (k, JObject [(''success'', JBool (success r)),
                                           (''data'', case data r of
                                                        PStr s \<Rightarrow> JString s
                                                      | PJson j \<Rightarrow> py_to_json env j)]))
                  results)"

text \<open>What a file opened empty holds after the chunks are written to it in turn.\<close>

definition written :: "string list \<Rightarrow> string" where
  "written chunks = foldl (\<lambda>content chunk. content @ chunk) [] chunks"

text \<open>
  Lines 160 to 169 of \<open>main\<close>: the report is written to the file or printed, and the
  exit status is 1 where the code calls \<open>sys.exit(1)\<close>, 0 where it returns.
  \<open>if args.output\<close> is a truth test too: \<open>None\<close> and the empty string are false.
  Opening a file for writing empties it. The handler \<open>except Exception\<close> covers the
  whole \<open>with\<close> block: a failure of \<open>open\<close>, of a write of \<open>json.dump\<close> or of the
  close prints the error and exits with 1. Printing itself is taken not to fail.
\<close>

definition main_output ::
  "'j env \<Rightarrow> args \<Rightarrow> (string \<times> 'j probe_result) list \<Rightarrow> world \<Rightarrow> int \<times> world" where
  "main_output env a results w =
     (case arg_output a of
        Some (c # cs) \<Rightarrow>
          (case open_w env (c # cs) of
             Some e \<Rightarrow> (1, py_print (''Error writing to output file: '' @ exn_str e) w)
           | None \<Rightarrow>
               (case write_w env (c # cs) (iterencode 0 (report_json env results)) of
                  None \<Rightarrow>
                    (0, py_print (''Scan results saved to '' @ (c # cs))
                          (w\<lparr>files := (files w)((c # cs) \<mapsto>
                                        written (iterencode 0 (report_json env results)))\<rparr>))
                | Some (e, kept) \<Rightarrow>
                    (1, py_print (''Error writing to output file: '' @ exn_str e)
                          (w\<lparr>files := (files w)((c # cs) \<mapsto> kept)\<rparr>))))
      | _ \<Rightarrow> (0, py_print (json_dumps (report_json env results)) w))"

text \<open>\<open>main\<close>, from the parsed arguments on (lines 144 to 169).\<close>

definition main :: "'j env \<Rightarrow> args \<Rightarrow> world \<Rightarrow> int \<times> world" where
  "main env a w =
     (if arg_timeout a \<le> 0 then
        (1, py_print ''Error: Timeout value must be greater than 0.'' w)
      else
        case main_scan env a w of
          (results, w1) \<Rightarrow> main_output env a results w1)"

subsection \<open>The requests a run of probes issues\<close>

text \<open>
  For stating what reaches the network: the calls of \<open>requests.get\<close> that probing the
  providers \<open>ps\<close> one after the other, each without explicit headers, issues. A name
  that is not a key of \<open>metadata_endpoints\<close> issues none.
\<close>

definition probe_requests :: "MetadataScanner \<Rightarrow> string list \<Rightarrow> request list" where
  "probe_requests self ps =
     concat (map (\<lambda>p. case map_of (metadata_endpoints self) p of
                          None \<Rightarrow> []
                        | Some url \<Rightarrow>
                            [\<lparr>req_url = url, req_timeout = timeout self,
                              req_headers = provider_headers p None,
                              req_allow_redirects = False\<rparr>]) ps)"

subsection \<open>Interrupts\<close>






subsection \<open>Notions for the proof that a text parses back\<close>

text \<open>
  A fuel that suffices for the decoder to read a value back; the text of the items of a
  non-empty list and of a non-empty dict; the rests after which a number ends; the
  characters a value's text starts with; and what the induction proves of a value: its
  text, at any level and before any such rest, parses back to the value with any fuel
  from \<open>fuel_for\<close> on.
\<close>

fun fuel_for :: "json \<Rightarrow> nat" where
  "fuel_for (JArray xs) = Suc (sum_list (map (\<lambda>x. Suc (fuel_for x)) xs))"
| "fuel_for (JObject kvs) = Suc (sum_list (map (\<lambda>(k, v). Suc (fuel_for v)) kvs))"
| "fuel_for v = Suc 0"

definition elements_text :: "nat \<Rightarrow> json list \<Rightarrow> string" where
  "elements_text level xs =
     concat (separated (CHR '','' # newline_indent level) (map (iterencode level) xs))"

definition members_text :: "nat \<Rightarrow> (string \<times> json) list \<Rightarrow> string" where
  "members_text level kvs =
     concat (separated (CHR '','' # newline_indent level)
               (map (\<lambda>(k, v). encode_string k # '': '' # iterencode level v) kvs))"

definition delimited :: "string \<Rightarrow> bool" where
  "delimited rest = (rest = [] \<or> hd rest = CHR '','' \<or> hd rest = CHR 0x0A)"

definition value_start :: "char \<Rightarrow> bool" where
  "value_start c = (c = CHR ''n'' \<or> c = CHR ''t'' \<or> c = CHR ''f'' \<or> c = CHR 0x22
                     \<or> c = CHR ''['' \<or> c = CHR ''{'' \<or> c = CHR ''-'' \<or> is_digit c)"

definition parses_back :: "json \<Rightarrow> bool" where
  "parses_back v =
     (\<forall>l f rest. fuel_for v \<le> f \<longrightarrow> delimited rest \<longrightarrow>
        parse_value f (json_text l v @ rest) = Some (v, rest))"

subsection \<open>An environment to run the program in\<close>

text \<open>
  A concrete outside, for running the definitions above on concrete inputs. Decoded
  objects are values of \<open>json\<close> themselves. \<open>example_repr\<close> is the key between single
  quotes, as \<open>repr\<close> writes a string without quotes, backslashes or control characters.
\<close>

definition example_repr :: "string \<Rightarrow> string" where
  "example_repr s = CHR 0x27 # s @ [CHR 0x27]"

text \<open>
  A body that is JSON (an object with the one member \<open>vmId\<close>), and a decoder that
  knows this body and fails on every other one as \<open>response.json()\<close> of requests 2.27
  or later fails on a text that starts with no JSON value.
\<close>

definition azure_body :: string where
  "azure_body = ''{'' @ encode_string ''vmId'' @ '': '' @ encode_string ''abc'' @ ''}''"

definition example_json_of :: "response \<Rightarrow> exn + json" where
  "example_json_of r =
     (if resp_text r = azure_body then Inr (JObject [(''vmId'', JString ''abc'')])
      else Inl (RequestsJSONDecodeError ''Expecting value: line 1 column 1 (char 0)''))"

text \<open>The outside over the network \<open>get\<close>; every file opens and every write succeeds.\<close>

definition example_env :: "(request list \<Rightarrow> request \<Rightarrow> exn + response) \<Rightarrow> json env" where
  "example_env get =
     \<lparr>http_get = get, json_of = example_json_of, py_repr = example_repr,
      py_to_json = (\<lambda>j. j), open_w = (\<lambda>path. None), write_w = (\<lambda>path chunks. None)\<rparr>"

text \<open>A network that answers every request with the status, the reason and the body given.\<close>

definition answer :: "int \<Rightarrow> string \<Rightarrow> string \<Rightarrow> request \<Rightarrow> exn + response" where
  "answer code why body rq =
     Inr \<lparr>status_code = code, reason = why, resp_url = req_url rq, resp_text = body\<rparr>"

text \<open>
  The network of a host on AWS: the AWS path answers 200, the Azure path on the same
  address answers 404, and the name of the GCP server does not resolve.
\<close>

definition aws_host_get :: "request list \<Rightarrow> request \<Rightarrow> exn + response" where
  "aws_host_get hist rq =
     (if req_url rq = ''http://169.254.169.254/latest/meta-data/'' then
        answer 200 ''OK'' ''ami-id'' rq
      else if req_url rq = ''http://169.254.169.254/metadata/instance?api-version=2020-09-01'' then
        answer 404 ''Not Found'' [] rq
      else Inl (ConnectionError ''Failed to resolve metadata.google.internal''))"

text \<open>
  The network of a host on Azure: the Azure path answers 200 with the JSON body, the AWS
  path on the same address answers 404, and the name of the GCP server does not resolve.
\<close>

definition azure_host_get :: "request list \<Rightarrow> request \<Rightarrow> exn + response" where
  "azure_host_get hist rq =
     (if req_url rq = ''http://169.254.169.254/metadata/instance?api-version=2020-09-01'' then
        answer 200 ''OK'' azure_body rq
      else if req_url rq = ''http://169.254.169.254/latest/meta-data/'' then
        answer 404 ''Not Found'' [] rq
      else Inl (ConnectionError ''Failed to resolve metadata.google.internal''))"

text \<open>The world before the program runs, and the scanner with the default arguments.\<close>

definition world0 :: world where
  "world0 = \<lparr>sent = [], logged = [], stdout = [], files = Map.empty\<rparr>"

definition scanner0 :: MetadataScanner where
  "scanner0 = MetadataScanner_init 5 ''vuln-Cloud-Metadata-Scanner/1.0''"

section \<open>Properties\<close>

subsection \<open>Effects of the helpers, of one probe and of the loop\<close>

lemma sent_logging_info [simp]: "sent (logging_info m w) = sent w"
  by (simp add: logging_info_def)

lemma sent_logging_error [simp]: "sent (logging_error m w) = sent w"
  by (simp add: logging_error_def)

lemma sent_py_print [simp]: "sent (py_print m w) = sent w"
  by (simp add: py_print_def)

lemma scan_endpoint_try_sent:
  "map_of (metadata_endpoints self) p = Some url \<Longrightarrow>
   sent (snd (scan_endpoint_try self env p h w)) =
     sent w @ [\<lparr>req_url = url, req_timeout = timeout self,
                req_headers = provider_headers p h, req_allow_redirects = False\<rparr>]"
  by (simp add: scan_endpoint_try_def Let_def split: sum.splits option.splits)

lemma scan_endpoint_sent:
  "map_of (metadata_endpoints self) p = Some url \<Longrightarrow>
   sent (snd (scan_endpoint self env p h w)) =
     sent w @ [\<lparr>req_url = url, req_timeout = timeout self,
                req_headers = provider_headers p h, req_allow_redirects = False\<rparr>]"
  using scan_endpoint_try_sent [of self p url env h w]
  by (auto simp: scan_endpoint_def split: prod.splits sum.splits)

lemma scan_endpoint_try_unknown:
  "map_of (metadata_endpoints self) p = None \<Longrightarrow>
   scan_endpoint_try self env p h w = (Inl (KeyError (py_repr env p)), w)"
  by (simp add: scan_endpoint_try_def)

lemma scan_endpoint_sent_unknown:
  "map_of (metadata_endpoints self) p = None \<Longrightarrow>
   sent (snd (scan_endpoint self env p h w)) = sent w"
  by (simp add: scan_endpoint_def scan_endpoint_try_unknown)

lemma init_endpoints [simp]:
  "map_of (metadata_endpoints (MetadataScanner_init t ua)) ''AWS''
     = Some ''http://169.254.169.254/latest/meta-data/''"
  "map_of (metadata_endpoints (MetadataScanner_init t ua)) ''Azure''
     = Some ''http://169.254.169.254/metadata/instance?api-version=2020-09-01''"
  "map_of (metadata_endpoints (MetadataScanner_init t ua)) ''GCP''
     = Some ''http://metadata.google.internal/computeMetadata/v1/''"
  "timeout (MetadataScanner_init t ua) = t"
  "user_agent (MetadataScanner_init t ua) = ua"
  by (simp_all add: MetadataScanner_init_def)

lemma init_keys:
  "map fst (metadata_endpoints (MetadataScanner_init t ua)) = [''AWS'', ''Azure'', ''GCP'']"
  by (simp add: MetadataScanner_init_def)

lemma scan_endpoint_sent_probe:
  "sent (snd (scan_endpoint self env p None w)) = sent w @ probe_requests self [p]"
  by (cases "map_of (metadata_endpoints self) p")
     (simp_all add: scan_endpoint_sent scan_endpoint_sent_unknown probe_requests_def)

lemma probe_requests_Cons:
  "probe_requests self (p # ps) = probe_requests self [p] @ probe_requests self ps"
  by (simp add: probe_requests_def)

lemma probe_requests_init:
  "probe_requests (MetadataScanner_init t ua) [''AWS''] =
     [\<lparr>req_url = ''http://169.254.169.254/latest/meta-data/'', req_timeout = t,
       req_headers = None, req_allow_redirects = False\<rparr>]"
  "probe_requests (MetadataScanner_init t ua) [''Azure''] =
     [\<lparr>req_url = ''http://169.254.169.254/metadata/instance?api-version=2020-09-01'',
       req_timeout = t, req_headers = Some [(''Metadata'', ''true'')],
       req_allow_redirects = False\<rparr>]"
  "probe_requests (MetadataScanner_init t ua) [''GCP''] =
     [\<lparr>req_url = ''http://metadata.google.internal/computeMetadata/v1/'', req_timeout = t,
       req_headers = Some [(''Metadata-Flavor'', ''Google'')], req_allow_redirects = False\<rparr>]"
  by (simp_all add: probe_requests_def provider_headers_def)

text \<open>
  The loop never stops early: whatever the probes return, the requests of all the
  providers left are issued, by induction on the providers with the report and the
  world generalised.
\<close>

lemma scan_loop_sent:
  "sent (snd (scan_loop self env ps results w)) = sent w @ probe_requests self ps"
proof (induction ps arbitrary: results w)
  case Nil
  show ?case by (simp add: probe_requests_def)
next
  case (Cons p ps)
  obtain s d w' where step: "scan_endpoint self env p None w = ((s, d), w')"
    by (metis prod.exhaust)
  have "sent w' = sent w @ probe_requests self [p]"
    using scan_endpoint_sent_probe [of self env p w] step by simp
  then show ?case
    using Cons.IH [of "dict_set results p \<lparr>success = s, data = d\<rparr>" w'] step
    by (simp add: probe_requests_Cons [of self p ps])
qed

lemma keys_dict_set:
  "map fst (dict_set kvs k v) =
     (if k \<in> set (map fst kvs) then map fst kvs else map fst kvs @ [k])"
  by (induction kvs) force+

lemma scan_loop_key_set:
  "set (map fst (fst (scan_loop self env ps results w))) = set (map fst results) \<union> set ps"
proof (induction ps arbitrary: results w)
  case Nil
  show ?case by simp
next
  case (Cons p ps)
  obtain s d w' where step: "scan_endpoint self env p None w = ((s, d), w')"
    by (metis prod.exhaust)
  show ?case
    using Cons.IH [of "dict_set results p \<lparr>success = s, data = d\<rparr>" w'] step
    by (auto simp: keys_dict_set simp del: set_map)
qed

lemma scan_loop_keys_distinct:
  "distinct (map fst results @ ps) \<Longrightarrow>
   map fst (fst (scan_loop self env ps results w)) = map fst results @ ps"
proof (induction ps arbitrary: results w)
  case Nil
  show ?case by simp
next
  case (Cons p ps)
  obtain s d w' where step: "scan_endpoint self env p None w = ((s, d), w')"
    by (metis prod.exhaust)
  have fresh: "p \<notin> set (map fst results)"
    using Cons.prems by auto
  have keys: "map fst (dict_set results p \<lparr>success = s, data = d\<rparr>) = map fst results @ [p]"
    using fresh by (simp add: keys_dict_set)
  have "distinct (map fst (dict_set results p \<lparr>success = s, data = d\<rparr>) @ ps)"
    using Cons.prems keys by auto
  then show ?case
    using Cons.IH [of "dict_set results p \<lparr>success = s, data = d\<rparr>" w'] step keys
    by simp
qed

subsection \<open>Effects of \<open>main\<close>\<close>

lemma sent_main_output: "sent (snd (main_output env a results w)) = sent w"
  by (simp add: main_output_def split: option.splits list.splits)

lemma main_positive:
  "0 < arg_timeout a \<Longrightarrow>
   main env a w = main_output env a (fst (main_scan env a w)) (snd (main_scan env a w))"
  by (simp add: main_def split: prod.splits)

lemma main_scan_providers:
  "arg_providers a = Some ps \<Longrightarrow> ps \<noteq> [] \<Longrightarrow>
   main_scan env a w =
     scan_loop (MetadataScanner_init (arg_timeout a) (arg_user_agent a)) env ps [] w"
  by (cases ps) (simp_all add: main_scan_def Let_def del: scan_loop.simps)

lemma main_scan_output_irrelevant:
  "main_scan env (a\<lparr>arg_output := out\<rparr>) w = main_scan env a w"
  by (simp add: main_scan_def)

lemma probe_requests_choices:
  "set ps \<subseteq> {''AWS'', ''Azure'', ''GCP''} \<Longrightarrow>
   probe_requests (MetadataScanner_init t ua) ps =
     map (\<lambda>p. \<lparr>req_url =
                   (if p = ''AWS'' then ''http://169.254.169.254/latest/meta-data/''
                    else if p = ''Azure'' then
                      ''http://169.254.169.254/metadata/instance?api-version=2020-09-01''
                    else ''http://metadata.google.internal/computeMetadata/v1/''),
                req_timeout = t,
                req_headers =
                   (if p = ''GCP'' then Some [(''Metadata-Flavor'', ''Google'')]
                    else if p = ''Azure'' then Some [(''Metadata'', ''true'')]
                    else None),
                req_allow_redirects = False\<rparr>) ps"
proof (induction ps)
  case Nil
  show ?case by (simp add: probe_requests_def)
next
  case (Cons p ps)
  have "p = ''AWS'' \<or> p = ''Azure'' \<or> p = ''GCP''"
    using Cons.prems by simp
  then have "probe_requests (MetadataScanner_init t ua) [p] =
     [\<lparr>req_url =
                   (if p = ''AWS'' then ''http://169.254.169.254/latest/meta-data/''
                    else if p = ''Azure'' then
                      ''http://169.254.169.254/metadata/instance?api-version=2020-09-01''
                    else ''http://metadata.google.internal/computeMetadata/v1/''),
                req_timeout = t,
                req_headers =
                   (if p = ''GCP'' then Some [(''Metadata-Flavor'', ''Google'')]
                    else if p = ''Azure'' then Some [(''Metadata'', ''true'')]
                    else None),
                req_allow_redirects = False\<rparr>]"
    by (auto simp: probe_requests_init)
  then show ?case
    using Cons by (simp add: probe_requests_Cons [of _ p ps])
qed

subsection \<open>The json module: strings parse back\<close>

lemma hex_value_hex_digit: "n < 16 \<Longrightarrow> hex_value (hex_digit n) = Some n"
  by (auto simp: hex_value_def hex_digit_def Let_def)

lemma hex4_byte:
  "n < 256 \<Longrightarrow> hex4 CHR ''0'' CHR ''0'' (hex_digit (n div 16)) (hex_digit (n mod 16)) = Some n"
proof -
  assume n: "n < 256"
  have z: "hex_value CHR ''0'' = Some 0"
    by (simp add: hex_value_def)
  have a: "hex_value (hex_digit (n div 16)) = Some (n div 16)"
    using n by (intro hex_value_hex_digit) simp
  have b: "hex_value (hex_digit (n mod 16)) = Some (n mod 16)"
    by (intro hex_value_hex_digit) simp
  show ?thesis
    by (simp add: hex4_def z a b)
qed

lemma parse_chars_escape:
  "parse_chars (escape_char c @ s) = map_option (\<lambda>(t, r). (c # t, r)) (parse_chars s)"
proof -
  have lt: "(of_char c :: nat) < 256"
    by simp
  note h = hex4_byte [OF lt]
  show ?thesis
    by (auto simp: escape_char_def unescape_def h)
qed

lemma parse_chars_encoded:
  "parse_chars (concat (map escape_char s) @ CHR 0x22 # rest) = Some (s, rest)"
  by (induction s) (simp_all add: parse_chars_escape)


subsection \<open>The json module: integers parse back\<close>

lemma is_digit_char_of: "(n::nat) < 10 \<Longrightarrow> is_digit (char_of (48 + n))"
  by (simp add: is_digit_def)

lemma digits_of_digits: "list_all is_digit (digits_of n)"
proof (induction n rule: digits_of.induct)
  case (1 n)
  show ?case
  proof (cases "n < 10")
    case True
    then show ?thesis
      by (subst digits_of.simps) (simp add: is_digit_char_of)
  next
    case False
    have "is_digit (char_of (48 + n mod 10))"
      by (rule is_digit_char_of) simp
    with False 1 show ?thesis
      by (subst digits_of.simps) simp
  qed
qed

lemma digits_of_nonempty: "digits_of n \<noteq> []"
  by (subst digits_of.simps) simp

lemma nat_of_digits_snoc:
  "nat_of_digits (ds @ [c]) = 10 * nat_of_digits ds + ((of_char c :: nat) - 48)"
  by (simp add: nat_of_digits_def)

lemma nat_of_digits_of: "nat_of_digits (digits_of n) = n"
proof (induction n rule: digits_of.induct)
  case (1 n)
  show ?case
  proof (cases "n < 10")
    case True
    then show ?thesis
      by (subst digits_of.simps) (simp add: nat_of_digits_def)
  next
    case False
    have "(of_char (char_of (48 + n mod 10) :: char) :: nat) = 48 + n mod 10"
      by simp
    with False 1 show ?thesis
      by (subst digits_of.simps) (simp add: nat_of_digits_snoc)
  qed
qed

lemma digits_of_hd: "hd (digits_of n) = CHR ''0'' \<Longrightarrow> n = 0"
proof (induction n rule: digits_of.induct)
  case (1 n)
  show ?case
  proof (cases "n < 10")
    case True
    have "digits_of n = [char_of (48 + n)]"
      using True by (subst digits_of.simps) simp
    with 1(2) have "(of_char (char_of (48 + n) :: char) :: nat) = of_char CHR ''0''"
      by simp
    with True show ?thesis by simp
  next
    case False
    have d: "digits_of n = digits_of (n div 10) @ [char_of (48 + n mod 10)]"
      using False by (subst digits_of.simps) simp
    then have "hd (digits_of n) = hd (digits_of (n div 10))"
      by (simp add: digits_of_nonempty)
    with 1 False have "n div 10 = 0"
      by simp
    with False show ?thesis by simp
  qed
qed

lemma digits_of_0: "digits_of 0 = ''0''"
  by code_simp

lemma digits_of_no_minus: "hd (digits_of n) \<noteq> CHR ''-''"
proof -
  have "is_digit (hd (digits_of n))"
    using digits_of_digits [of n] digits_of_nonempty [of n]
    by (cases "digits_of n") simp_all
  then show ?thesis
    by (auto simp: is_digit_def)
qed


lemma take_digits:
  "list_all is_digit ds \<Longrightarrow> delimited rest \<Longrightarrow>
   takeWhile is_digit (ds @ rest) = ds \<and> dropWhile is_digit (ds @ rest) = rest"
proof (induction ds)
  case Nil
  then show ?case
    by (cases rest) (auto simp: delimited_def is_digit_def)
next
  case (Cons d ds)
  then show ?case by simp
qed

lemma parse_number_digits:
  assumes "delimited rest"
  shows "parse_number (digits_of n @ rest) = Some (JInt (int n), rest)"
proof -
  note t = take_digits [OF digits_of_digits assms, of n]
  have neg: "\<not> (digits_of n @ rest \<noteq> [] \<and> hd (digits_of n @ rest) = CHR ''-'')"
    using digits_of_no_minus [of n] by (simp add: digits_of_nonempty)
  have lead: "\<not> (hd (digits_of n) = CHR ''0'' \<and> tl (digits_of n) \<noteq> [])"
    using digits_of_hd [of n] by (auto simp: digits_of_0)
  have fl: "\<not> (rest \<noteq> [] \<and> (hd rest = CHR ''.'' \<or> hd rest = CHR ''e'' \<or> hd rest = CHR ''E''))"
    using assms by (auto simp: delimited_def)
  show ?thesis
    unfolding parse_number_def Let_def
    using neg lead fl t by (simp add: digits_of_nonempty nat_of_digits_of)
qed

lemma parse_number_minus:
  assumes "delimited rest"
  shows "parse_number (CHR ''-'' # digits_of n @ rest) = Some (JInt (- int n), rest)"
proof -
  note t = take_digits [OF digits_of_digits assms, of n]
  have lead: "\<not> (hd (digits_of n) = CHR ''0'' \<and> tl (digits_of n) \<noteq> [])"
    using digits_of_hd [of n] by (auto simp: digits_of_0)
  have fl: "\<not> (rest \<noteq> [] \<and> (hd rest = CHR ''.'' \<or> hd rest = CHR ''e'' \<or> hd rest = CHR ''E''))"
    using assms by (auto simp: delimited_def)
  show ?thesis
    unfolding parse_number_def Let_def
    using lead fl t by (simp add: digits_of_nonempty nat_of_digits_of)
qed

lemma parse_number_str_int:
  "delimited rest \<Longrightarrow> parse_number (str_int i @ rest) = Some (JInt i, rest)"
  by (cases "i < 0") (simp_all add: str_int_def parse_number_digits parse_number_minus)

subsection \<open>The json module: the text of a value\<close>

lemma json_text_simps:
  "json_text l JNull = ''null''"
  "json_text l (JBool True) = ''true''"
  "json_text l (JBool False) = ''false''"
  "json_text l (JInt i) = str_int i"
  "json_text l (JString s) = encode_string s"
  "json_text l (JArray []) = ''[]''"
  "json_text l (JObject []) = ''{}''"
  by (simp_all add: json_text_def)

lemma json_text_array:
  "xs \<noteq> [] \<Longrightarrow>
   json_text l (JArray xs) =
     CHR ''['' # newline_indent (Suc l) @ elements_text (Suc l) xs @ newline_indent l @ '']''"
  by (simp add: json_text_def elements_text_def)

lemma json_text_object:
  "kvs \<noteq> [] \<Longrightarrow>
   json_text l (JObject kvs) =
     CHR ''{'' # newline_indent (Suc l) @ members_text (Suc l) kvs @ newline_indent l @ ''}''"
  by (simp add: json_text_def members_text_def)

lemma elements_text_simps:
  "elements_text l [x] = json_text l x"
  "elements_text l (x # y # ys) =
     json_text l x @ CHR '','' # newline_indent l @ elements_text l (y # ys)"
  by (simp_all add: elements_text_def json_text_def)

lemma members_text_simps:
  "members_text l [(k, v)] = encode_string k @ '': '' @ json_text l v"
  "members_text l ((k, v) # kv # kvs) =
     encode_string k @ '': '' @ json_text l v @ CHR '','' # newline_indent l
     @ members_text l (kv # kvs)"
  by (simp_all add: members_text_def json_text_def)

lemma str_int_start: "\<exists>c cs. str_int i = c # cs \<and> (c = CHR ''-'' \<or> is_digit c)"
proof (cases "i < 0")
  case True
  then show ?thesis by (simp add: str_int_def)
next
  case False
  obtain c cs where d: "digits_of (nat i) = c # cs"
    using digits_of_nonempty [of "nat i"] by (cases "digits_of (nat i)") auto
  have "is_digit c"
    using digits_of_digits [of "nat i"] d by simp
  with False d show ?thesis by (simp add: str_int_def)
qed

lemma json_text_start: "\<exists>c cs. json_text l v = c # cs \<and> value_start c"
proof (cases v)
  case (JBool b)
  then show ?thesis by (cases b) (simp_all add: json_text_simps value_start_def)
next
  case (JInt i)
  then show ?thesis
    using str_int_start [of i] by (auto simp: json_text_simps value_start_def)
next
  case (JArray xs)
  then show ?thesis
    by (cases "xs = []") (simp_all add: json_text_simps json_text_array value_start_def)
next
  case (JObject kvs)
  then show ?thesis
    by (cases "kvs = []") (simp_all add: json_text_simps json_text_object value_start_def)
qed (simp_all add: json_text_simps value_start_def encode_string_def)

lemma value_start_not_ws: "value_start c \<Longrightarrow> \<not> is_ws c"
  by (auto simp: value_start_def is_ws_def is_digit_def)

lemma value_start_not_close: "value_start c \<Longrightarrow> c \<noteq> CHR '']'' \<and> c \<noteq> CHR ''}''"
  by (auto simp: value_start_def is_digit_def)

subsection \<open>The json module: white space\<close>

lemma skip_ws_spaces: "skip_ws (replicate n CHR '' '' @ s) = skip_ws s"
  by (induction n) (simp_all add: skip_ws_def is_ws_def)

lemma skip_ws_newline_indent [simp]: "skip_ws (newline_indent n @ s) = skip_ws s"
  using skip_ws_spaces [of "4 * n" s] by (simp add: skip_ws_def newline_indent_def is_ws_def)

lemma skip_ws_space [simp]: "skip_ws (CHR '' '' # s) = skip_ws s"
  by (simp add: skip_ws_def is_ws_def)

lemma skip_ws_Cons: "\<not> is_ws c \<Longrightarrow> skip_ws (c # s) = c # s"
  by (simp add: skip_ws_def)

lemma skip_ws_text: "skip_ws (json_text l v @ s) = json_text l v @ s"
  using json_text_start [of l v] by (auto simp: skip_ws_Cons value_start_not_ws)

lemma parse_value_skip: "skip_ws s = skip_ws t \<Longrightarrow> parse_value f s = parse_value f t"
  by (cases f) simp_all

lemma parse_elements_skip: "skip_ws s = skip_ws t \<Longrightarrow> parse_elements f s = parse_elements f t"
  by (cases f) (simp_all add: parse_value_skip [of s t])

lemma parse_members_skip: "skip_ws s = skip_ws t \<Longrightarrow> parse_members f s = parse_members f t"
  by (cases f) simp_all

subsection \<open>The json module: every value parses back\<close>

lemma parse_value_null: "parse_value (Suc f) (''null'' @ rest) = Some (JNull, rest)"
  by (simp add: skip_ws_Cons is_ws_def)

lemma parse_value_true: "parse_value (Suc f) (''true'' @ rest) = Some (JBool True, rest)"
  by (simp add: skip_ws_Cons is_ws_def)

lemma parse_value_false: "parse_value (Suc f) (''false'' @ rest) = Some (JBool False, rest)"
  by (simp add: skip_ws_Cons is_ws_def)

lemma parse_value_string:
  "parse_value (Suc f) (encode_string s @ rest) = Some (JString s, rest)"
  by (simp add: encode_string_def skip_ws_Cons is_ws_def parse_chars_encoded)

lemma parse_value_int:
  assumes "delimited rest"
  shows "parse_value (Suc f) (str_int i @ rest) = Some (JInt i, rest)"
proof -
  obtain c cs where s: "str_int i = c # cs" and c: "c = CHR ''-'' \<or> is_digit c"
    using str_int_start [of i] by blast
  have "\<not> is_ws c"
    using c by (auto simp: is_ws_def is_digit_def)
  then have ws: "skip_ws (c # cs @ rest) = c # cs @ rest"
    by (simp add: skip_ws_Cons)
  have n: "c \<noteq> CHR 0x22 \<and> c \<noteq> CHR ''['' \<and> c \<noteq> CHR ''{'' \<and> c \<noteq> CHR ''n''
           \<and> c \<noteq> CHR ''t'' \<and> c \<noteq> CHR ''f''"
    using c by (auto simp: is_digit_def)
  have "parse_value (Suc f) (c # cs @ rest) = parse_number (c # cs @ rest)"
    using n by (simp add: ws)
  then show ?thesis
    using parse_number_str_int [OF assms, of i] by (simp add: s)
qed

lemma dict_set_fresh: "k \<notin> set (map fst d) \<Longrightarrow> dict_set d k v = d @ [(k, v)]"
  by (induction d) auto

lemma dict_of_distinct_aux:
  "distinct (map fst (d @ kvs)) \<Longrightarrow> foldl (\<lambda>d (k, v). dict_set d k v) d kvs = d @ kvs"
proof (induction kvs arbitrary: d)
  case Nil
  show ?case by simp
next
  case (Cons kv kvs)
  obtain k v where kv: "kv = (k, v)"
    by (cases kv)
  have fresh: "k \<notin> set (map fst d)"
    using Cons.prems kv by auto
  have "distinct (map fst ((d @ [(k, v)]) @ kvs))"
    using Cons.prems kv by simp
  then show ?case
    using Cons.IH [of "d @ [(k, v)]"] by (simp add: kv dict_set_fresh [OF fresh])
qed

lemma dict_of_distinct: "distinct (map fst kvs) \<Longrightarrow> dict_of kvs = kvs"
  using dict_of_distinct_aux [of "[]" kvs] by (simp add: dict_of_def)

lemma delimited_close: "delimited (newline_indent m @ s)" "delimited (CHR '','' # s)"
  by (simp_all add: delimited_def newline_indent_def)

lemma parse_elements_text:
  assumes "xs \<noteq> []" and "\<forall>x \<in> set xs. parses_back x"
    and "sum_list (map (\<lambda>x. Suc (fuel_for x)) xs) \<le> f"
  shows "parse_elements f (elements_text l xs @ newline_indent m @ CHR '']'' # rest)
           = Some (xs, rest)"
  using assms
proof (induction xs arbitrary: f rule: list_nonempty_induct)
  case (single x)
  then obtain f' where f: "f = Suc f'" and fx: "fuel_for x \<le> f'"
    by (cases f) auto
  have px: "parse_value f' (json_text l x @ newline_indent m @ CHR '']'' # rest)
              = Some (x, newline_indent m @ CHR '']'' # rest)"
    using single fx by (simp add: parses_back_def delimited_close)
  show ?case
    by (simp add: f elements_text_simps px skip_ws_Cons is_ws_def)
next
  case (cons x xs)
  then obtain f' where f: "f = Suc f'" and fx: "fuel_for x \<le> f'"
    and fxs: "sum_list (map (\<lambda>x. Suc (fuel_for x)) xs) \<le> f'"
    by (cases f) auto
  obtain y ys where xs: "xs = y # ys"
    using cons.hyps by (cases xs) auto
  let ?tail = "CHR '','' # newline_indent l @ elements_text l xs @ newline_indent m
               @ CHR '']'' # rest"
  have px: "parse_value f' (json_text l x @ ?tail) = Some (x, ?tail)"
    using cons.prems fx by (simp add: parses_back_def delimited_close)
  have pxs: "parse_elements f' (elements_text l xs @ newline_indent m @ CHR '']'' # rest)
               = Some (xs, rest)"
    using cons.IH [of f'] cons.prems fxs by simp
  have sk: "parse_elements f' (newline_indent l @ elements_text l xs @ newline_indent m
               @ CHR '']'' # rest) = Some (xs, rest)"
    using pxs parse_elements_skip [of "newline_indent l @ elements_text l xs @ newline_indent m
               @ CHR '']'' # rest" "elements_text l xs @ newline_indent m @ CHR '']'' # rest" f']
    by simp
  have shape: "elements_text l (x # xs) @ newline_indent m @ CHR '']'' # rest
               = json_text l x @ ?tail"
    by (simp add: xs elements_text_simps)
  show ?case
    unfolding shape f
    by (simp add: px sk skip_ws_Cons is_ws_def)
qed

lemma parse_key_text:
  "parse_chars (tl (encode_string k @ s)) = Some (k, s)"
  by (simp add: encode_string_def parse_chars_encoded)

lemma parse_member_value:
  assumes "parses_back v" and "fuel_for v \<le> f" and "delimited rest"
  shows "parse_value f (CHR '' '' # json_text l v @ rest) = Some (v, rest)"
proof -
  have "parse_value f (json_text l v @ rest) = Some (v, rest)"
    using assms by (simp add: parses_back_def)
  then show ?thesis
    using parse_value_skip [of "CHR '' '' # json_text l v @ rest" "json_text l v @ rest" f]
    by simp
qed

lemma parse_members_text:
  assumes "kvs \<noteq> []" and "\<forall>kv \<in> set kvs. parses_back (snd kv)"
    and "sum_list (map (\<lambda>(k, v). Suc (fuel_for v)) kvs) \<le> f"
  shows "parse_members f (members_text l kvs @ newline_indent m @ CHR ''}'' # rest)
           = Some (kvs, rest)"
  using assms
proof (induction kvs arbitrary: f rule: list_nonempty_induct)
  case (single kv)
  obtain k v where kv: "kv = (k, v)"
    by (cases kv)
  from single kv obtain f' where f: "f = Suc f'" and fv: "fuel_for v \<le> f'"
    by (cases f) auto
  have pv: "parses_back v"
    using single kv by simp
  let ?tail = "newline_indent m @ CHR ''}'' # rest"
  have m: "parse_value f' (CHR '' '' # json_text l v @ ?tail) = Some (v, ?tail)"
    using pv fv delimited_close(1) by (rule parse_member_value)
  have key: "parse_chars (tl (encode_string k @ '': '' @ json_text l v @ ?tail))
               = Some (k, '': '' @ json_text l v @ ?tail)"
    by (rule parse_key_text)
  have shape: "members_text l [kv] @ ?tail
               = CHR 0x22 # tl (encode_string k @ '': '' @ json_text l v @ ?tail)"
    by (simp add: kv members_text_simps encode_string_def)
  show ?case
    unfolding shape f
    using m key by (simp add: skip_ws_Cons is_ws_def kv)
next
  case (cons kv kvs)
  obtain k v where kv: "kv = (k, v)"
    by (cases kv)
  from cons kv obtain f' where f: "f = Suc f'" and fv: "fuel_for v \<le> f'"
    and fkvs: "sum_list (map (\<lambda>(k, v). Suc (fuel_for v)) kvs) \<le> f'"
    by (cases f) auto
  obtain kv' kvs' where kvs: "kvs = kv' # kvs'"
    using cons.hyps by (cases kvs) auto
  have pv: "parses_back v"
    using cons.prems kv by simp
  let ?after = "members_text l kvs @ newline_indent m @ CHR ''}'' # rest"
  let ?tail = "CHR '','' # newline_indent l @ ?after"
  have m: "parse_value f' (CHR '' '' # json_text l v @ ?tail) = Some (v, ?tail)"
    using pv fv delimited_close(2) by (rule parse_member_value)
  have key: "parse_chars (tl (encode_string k @ '': '' @ json_text l v @ ?tail))
               = Some (k, '': '' @ json_text l v @ ?tail)"
    by (rule parse_key_text)
  have pkvs: "parse_members f' ?after = Some (kvs, rest)"
    using cons.IH [of f'] cons.prems fkvs by simp
  have sk: "parse_members f' (newline_indent l @ ?after) = Some (kvs, rest)"
    using pkvs parse_members_skip [of "newline_indent l @ ?after" ?after f'] by simp
  have shape: "members_text l (kv # kvs) @ newline_indent m @ CHR ''}'' # rest
               = CHR 0x22 # tl (encode_string k @ '': '' @ json_text l v @ ?tail)"
    by (simp add: kv kvs members_text_simps encode_string_def)
  show ?case
    unfolding shape f
    using m key sk by (simp add: skip_ws_Cons is_ws_def kv)
qed

lemma parses_back_array:
  assumes "\<forall>x \<in> set xs. parses_back x"
  shows "parses_back (JArray xs)"
  unfolding parses_back_def
proof (intro allI impI)
  fix l f rest
  assume fuel: "fuel_for (JArray xs) \<le> f"
  then obtain f' where f: "f = Suc f'"
    and fxs: "sum_list (map (\<lambda>x. Suc (fuel_for x)) xs) \<le> f'"
    by (cases f) auto
  show "parse_value f (json_text l (JArray xs) @ rest) = Some (JArray xs, rest)"
  proof (cases "xs = []")
    case True
    then show ?thesis
      by (simp add: f json_text_simps skip_ws_Cons is_ws_def)
  next
    case False
    let ?inner = "elements_text (Suc l) xs @ newline_indent l @ CHR '']'' # rest"
    obtain x ys where xs: "xs = x # ys"
      using False by (cases xs) auto
    obtain c cs where start: "json_text (Suc l) x = c # cs" and c: "value_start c"
      using json_text_start [of "Suc l" x] by blast
    have "\<exists>cs'. ?inner = c # cs'"
      by (cases ys) (simp_all add: xs elements_text_simps start)
    then obtain cs' where inner: "?inner = c # cs'"
      by blast
    have sk: "skip_ws (newline_indent (Suc l) @ ?inner) = c # cs'"
      using c by (simp add: inner skip_ws_Cons value_start_not_ws)
    have open_c: "c \<noteq> CHR '']''"
      using c value_start_not_close by blast
    have pe: "parse_elements f' (newline_indent (Suc l) @ ?inner) = Some (xs, rest)"
      using parse_elements_text [OF False assms fxs, of "Suc l" l rest]
            parse_elements_skip [of "newline_indent (Suc l) @ ?inner" ?inner f']
      by simp
    have shape: "json_text l (JArray xs) @ rest = CHR ''['' # newline_indent (Suc l) @ ?inner"
      by (simp add: json_text_array [OF False])
    show ?thesis
      unfolding shape f
      using sk open_c pe by (simp add: skip_ws_Cons is_ws_def)
  qed
qed

lemma parses_back_object:
  assumes "\<forall>kv \<in> set kvs. parses_back (snd kv)" and "distinct (map fst kvs)"
  shows "parses_back (JObject kvs)"
  unfolding parses_back_def
proof (intro allI impI)
  fix l f rest
  assume fuel: "fuel_for (JObject kvs) \<le> f"
  then obtain f' where f: "f = Suc f'"
    and fkvs: "sum_list (map (\<lambda>(k, v). Suc (fuel_for v)) kvs) \<le> f'"
    by (cases f) auto
  show "parse_value f (json_text l (JObject kvs) @ rest) = Some (JObject kvs, rest)"
  proof (cases "kvs = []")
    case True
    then show ?thesis
      by (simp add: f json_text_simps skip_ws_Cons is_ws_def)
  next
    case False
    let ?inner = "members_text (Suc l) kvs @ newline_indent l @ CHR ''}'' # rest"
    obtain k v ys where kvs: "kvs = (k, v) # ys"
      using False by (cases kvs) auto
    have "\<exists>cs'. ?inner = CHR 0x22 # cs'"
      by (cases ys) (auto simp: kvs members_text_simps encode_string_def)
    then obtain cs' where inner: "?inner = CHR 0x22 # cs'"
      by blast
    have sk: "skip_ws (newline_indent (Suc l) @ ?inner) = CHR 0x22 # cs'"
      by (simp add: inner skip_ws_Cons is_ws_def)
    have pm: "parse_members f' (newline_indent (Suc l) @ ?inner) = Some (kvs, rest)"
      using parse_members_text [OF False assms(1) fkvs, of "Suc l" l rest]
            parse_members_skip [of "newline_indent (Suc l) @ ?inner" ?inner f']
      by simp
    have shape: "json_text l (JObject kvs) @ rest = CHR ''{'' # newline_indent (Suc l) @ ?inner"
      by (simp add: json_text_object [OF False])
    show ?thesis
      unfolding shape f
      using sk pm by (simp add: skip_ws_Cons is_ws_def dict_of_distinct [OF assms(2)])
  qed
qed

lemma parses_back_leaf:
  "parses_back JNull" "parses_back (JBool b)" "parses_back (JInt i)" "parses_back (JString s)"
  unfolding parses_back_def
proof -
  show "\<forall>l f rest. fuel_for JNull \<le> f \<longrightarrow> delimited rest \<longrightarrow>
          parse_value f (json_text l JNull @ rest) = Some (JNull, rest)"
  proof (intro allI impI)
    fix l f rest
    assume "fuel_for JNull \<le> f"
    then obtain f' where "f = Suc f'" by (cases f) auto
    then show "parse_value f (json_text l JNull @ rest) = Some (JNull, rest)"
      using parse_value_null [of f' rest] by (simp add: json_text_simps)
  qed
  show "\<forall>l f rest. fuel_for (JBool b) \<le> f \<longrightarrow> delimited rest \<longrightarrow>
          parse_value f (json_text l (JBool b) @ rest) = Some (JBool b, rest)"
  proof (intro allI impI)
    fix l f rest
    assume "fuel_for (JBool b) \<le> f"
    then obtain f' where "f = Suc f'" by (cases f) auto
    then show "parse_value f (json_text l (JBool b) @ rest) = Some (JBool b, rest)"
      using parse_value_true [of f' rest] parse_value_false [of f' rest]
      by (cases b) (simp_all add: json_text_simps)
  qed
  show "\<forall>l f rest. fuel_for (JInt i) \<le> f \<longrightarrow> delimited rest \<longrightarrow>
          parse_value f (json_text l (JInt i) @ rest) = Some (JInt i, rest)"
  proof (intro allI impI)
    fix l f rest
    assume "fuel_for (JInt i) \<le> f" and d: "delimited rest"
    then obtain f' where "f = Suc f'" by (cases f) auto
    then show "parse_value f (json_text l (JInt i) @ rest) = Some (JInt i, rest)"
      using parse_value_int [OF d, of f' i] by (simp add: json_text_simps)
  qed
  show "\<forall>l f rest. fuel_for (JString s) \<le> f \<longrightarrow> delimited rest \<longrightarrow>
          parse_value f (json_text l (JString s) @ rest) = Some (JString s, rest)"
  proof (intro allI impI)
    fix l f rest
    assume "fuel_for (JString s) \<le> f"
    then obtain f' where "f = Suc f'" by (cases f) auto
    then show "parse_value f (json_text l (JString s) @ rest) = Some (JString s, rest)"
      using parse_value_string [of f' s rest] by (simp add: json_text_simps)
  qed
qed

lemma json_wf_parses_back: "json_wf v \<Longrightarrow> parses_back v"
proof (induction v)
  case (JArray xs)
  have "\<forall>x \<in> set xs. parses_back x"
    using JArray by (auto simp: list_all_iff)
  then show ?case by (rule parses_back_array)
next
  case (JObject kvs)
  have "\<forall>kv \<in> set kvs. parses_back (snd kv)"
  proof
    fix kv
    assume m: "kv \<in> set kvs"
    obtain k v where kv: "kv = (k, v)" by (cases kv)
    have "json_wf v"
      using JObject.prems m kv by (auto simp: list_all_iff)
    then show "parses_back (snd kv)"
      using JObject.IH [of kv v] m kv by simp
  qed
  moreover have "distinct (map fst kvs)"
    using JObject.prems by simp
  ultimately show ?case by (rule parses_back_object)
qed (simp_all add: parses_back_leaf)

lemma length_elements_text:
  assumes "\<forall>x \<in> set xs. fuel_for x \<le> length (json_text l x)"
  shows "sum_list (map (\<lambda>x. Suc (fuel_for x)) xs) \<le> Suc (length (elements_text l xs))"
  using assms
proof (induction xs rule: induct_list012)
  case 1
  show ?case by simp
next
  case (2 x)
  then show ?case by (simp add: elements_text_simps)
next
  case (3 x y ys)
  then show ?case by (simp add: elements_text_simps)
qed

lemma length_members_text:
  assumes "\<forall>kv \<in> set kvs. fuel_for (snd kv) \<le> length (json_text l (snd kv))"
  shows "sum_list (map (\<lambda>(k, v). Suc (fuel_for v)) kvs) \<le> Suc (length (members_text l kvs))"
  using assms
proof (induction kvs rule: induct_list012)
  case 1
  show ?case by simp
next
  case (2 kv)
  then show ?case by (cases kv) (simp add: members_text_simps)
next
  case (3 kv kv' kvs)
  then show ?case by (cases kv) (simp add: members_text_simps)
qed

lemma fuel_for_le_length: "fuel_for v \<le> length (json_text l v)"
proof (induction v arbitrary: l)
  case (JArray xs)
  show ?case
  proof (cases "xs = []")
    case True
    then show ?thesis by (simp add: json_text_simps)
  next
    case False
    have "sum_list (map (\<lambda>x. Suc (fuel_for x)) xs) \<le> Suc (length (elements_text (Suc l) xs))"
      using JArray by (intro length_elements_text) simp
    then show ?thesis
      by (simp add: json_text_array [OF False])
  qed
next
  case (JObject kvs)
  show ?case
  proof (cases "kvs = []")
    case True
    then show ?thesis by (simp add: json_text_simps)
  next
    case False
    have "\<forall>kv \<in> set kvs. fuel_for (snd kv) \<le> length (json_text (Suc l) (snd kv))"
    proof
      fix kv
      assume m: "kv \<in> set kvs"
      have "snd kv \<in> Basic_BNFs.snds kv"
        by (cases kv) simp
      with m show "fuel_for (snd kv) \<le> length (json_text (Suc l) (snd kv))"
        by (rule JObject)
    qed
    then have "sum_list (map (\<lambda>(k, v). Suc (fuel_for v)) kvs)
                 \<le> Suc (length (members_text (Suc l) kvs))"
      by (rule length_members_text)
    then show ?thesis
      by (simp add: json_text_object [OF False])
  qed
next
  case (JInt i)
  show ?case
    using str_int_start [of i] by (auto simp: json_text_simps)
next
  case (JBool b)
  show ?case by (cases b) (simp_all add: json_text_simps)
qed (simp_all add: json_text_simps encode_string_def)

lemma json_loads_dumps: "json_wf v \<Longrightarrow> json_loads (json_dumps v) = Some v"
proof -
  assume "json_wf v"
  then have "parses_back v"
    by (rule json_wf_parses_back)
  then have step: "fuel_for v \<le> Suc (length (json_text 0 v)) \<longrightarrow> delimited [] \<longrightarrow>
      parse_value (Suc (length (json_text 0 v))) (json_text 0 v @ []) = Some (v, [])"
    unfolding parses_back_def by blast
  have fuel: "fuel_for v \<le> Suc (length (json_text 0 v))"
    using fuel_for_le_length [of v 0] by simp
  have "delimited []"
    by (simp add: delimited_def)
  with step fuel
  have p: "parse_value (Suc (length (json_text 0 v))) (json_text 0 v) = Some (v, [])"
    by (simp del: parse_value.simps)
  show ?thesis
    unfolding json_loads_def json_dumps_def p by (simp add: skip_ws_def)
qed

text \<open>A small report, its text with an indent of 4, and the text read back.\<close>

lemma json_dumps_example:
  "json_dumps (JObject [(''AWS'', JObject [(''success'', JBool True),
                                          (''data'', JString ''ami-id'')])]) =
     ''{'' @ [CHR 0x0A] @
     ''    '' @ [CHR 0x22] @ ''AWS'' @ [CHR 0x22] @ '': {'' @ [CHR 0x0A] @
     ''        '' @ [CHR 0x22] @ ''success'' @ [CHR 0x22] @ '': true,'' @ [CHR 0x0A] @
     ''        '' @ [CHR 0x22] @ ''data'' @ [CHR 0x22] @ '': '' @ [CHR 0x22] @ ''ami-id''
       @ [CHR 0x22] @ [CHR 0x0A] @
     ''    }'' @ [CHR 0x0A] @
     ''}''"
  by code_simp

lemma json_loads_example:
  "json_loads
     (''{'' @ [CHR 0x0A] @
      ''    '' @ [CHR 0x22] @ ''AWS'' @ [CHR 0x22] @ '': {'' @ [CHR 0x0A] @
      ''        '' @ [CHR 0x22] @ ''success'' @ [CHR 0x22] @ '': true,'' @ [CHR 0x0A] @
      ''        '' @ [CHR 0x22] @ ''data'' @ [CHR 0x22] @ '': '' @ [CHR 0x22] @ ''ami-id''
        @ [CHR 0x22] @ [CHR 0x0A] @
      ''    }'' @ [CHR 0x0A] @
      ''}'') =
     Some (JObject [(''AWS'', JObject [(''success'', JBool True),
                                      (''data'', JString ''ami-id'')])])"
  by code_simp

subsection \<open>The result of one probe\<close>

lemma scan_endpoint_result:
  "fst (scan_endpoint self env p h w) =
     (case map_of (metadata_endpoints self) p of
        None \<Rightarrow> (False, PStr (error_message p (KeyError (py_repr env p))))
      | Some url \<Rightarrow>
          (case http_get env (sent w)
                  \<lparr>req_url = url, req_timeout = timeout self,
                   req_headers = provider_headers p h, req_allow_redirects = False\<rparr> of
             Inl e \<Rightarrow> (False, PStr (error_message p e))
           | Inr r \<Rightarrow>
               (case raise_for_status r of
                  Some e \<Rightarrow> (False, PStr (error_message p e))
                | None \<Rightarrow>
                    if p = ''Azure'' then
                      (case json_of env r of
                         Inl e \<Rightarrow> (False, PStr (error_message p e))
                       | Inr j \<Rightarrow> (True, PJson j))
                    else (True, PStr (resp_text r)))))"
  by (simp add: scan_endpoint_def scan_endpoint_try_def Let_def
      split: option.splits sum.splits)

lemma error_message_HTTPError:
  "error_message p (HTTPError m) = ''Error accessing '' @ p @ '' metadata: '' @ m"
  by (simp add: error_message_def)

lemma error_message_KeyError:
  "error_message p (KeyError m) = ''An unexpected error occurred: '' @ m"
  by (simp add: error_message_def)

lemma raise_for_status_cases:
  "raise_for_status r =
     (if 400 \<le> status_code r \<and> status_code r < 600 then
        Some (HTTPError (str_int (status_code r)
                         @ (if status_code r < 500 then '' Client Error: '' else '' Server Error: '')
                         @ reason r @ '' for url: '' @ resp_url r))
      else None)"
  by (auto simp: raise_for_status_def)

subsection \<open>The report of a scan\<close>

lemma written_concat_aux: "foldl (\<lambda>content chunk. content @ chunk) s chunks = s @ concat chunks"
  by (induction chunks arbitrary: s) simp_all

lemma written_iterencode: "written (iterencode 0 v) = json_dumps v"
  by (simp add: written_def written_concat_aux json_dumps_def json_text_def)

lemma stdout_logging [simp]:
  "stdout (logging_info m w) = stdout w" "stdout (logging_error m w) = stdout w"
  by (simp_all add: logging_info_def logging_error_def)

lemma stdout_scan_endpoint: "stdout (snd (scan_endpoint self env p h w)) = stdout w"
  by (auto simp: scan_endpoint_def scan_endpoint_try_def Let_def
      split: option.splits sum.splits prod.splits)

lemma stdout_scan_loop: "stdout (snd (scan_loop self env ps results w)) = stdout w"
proof (induction ps arbitrary: results w)
  case Nil
  show ?case by simp
next
  case (Cons p ps)
  obtain s d w' where step: "scan_endpoint self env p None w = ((s, d), w')"
    by (metis prod.exhaust)
  have "stdout w' = stdout w"
    using stdout_scan_endpoint [of self env p None w] step by simp
  then show ?case
    using Cons.IH [of "dict_set results p \<lparr>success = s, data = d\<rparr>" w'] step by simp
qed

lemma stdout_main_scan: "stdout (snd (main_scan env a w)) = stdout w"
  by (simp add: main_scan_def scan_all_endpoints_def stdout_scan_loop Let_def
      split: option.splits list.splits del: scan_loop.simps)

text \<open>Every decoded object in a report is one that \<open>response.json()\<close> returned.\<close>

lemma scan_endpoint_decoded:
  "fst (scan_endpoint self env p h w) = (s, PJson j) \<Longrightarrow> \<exists>r. json_of env r = Inr j"
  by (auto simp: scan_endpoint_result split: option.splits sum.splits if_splits)

lemma set_dict_set: "set (dict_set kvs k v) \<subseteq> insert (k, v) (set kvs)"
proof (induction kvs)
  case Nil
  show ?case by simp
next
  case (Cons kv kvs)
  obtain k' v' where kv: "kv = (k', v')"
    by (cases kv)
  show ?case
  proof (cases "k' = k")
    case True
    then show ?thesis by (auto simp: kv)
  next
    case False
    then show ?thesis
      using Cons.IH by (auto simp: kv)
  qed
qed

lemma dict_set_values:
  "P v \<Longrightarrow> \<forall>kv \<in> set kvs. P (snd kv) \<Longrightarrow> \<forall>kv \<in> set (dict_set kvs k v). P (snd kv)"
  using set_dict_set [of kvs k v] by fastforce

lemma dict_set_distinct:
  "distinct (map fst kvs) \<Longrightarrow> distinct (map fst (dict_set kvs k v))"
  by (simp add: keys_dict_set)

lemma scan_loop_report:
  assumes "distinct (map fst results)"
    and "\<forall>kv \<in> set results. \<forall>j. data (snd kv) = PJson j \<longrightarrow> (\<exists>r. json_of env r = Inr j)"
  shows "distinct (map fst (fst (scan_loop self env ps results w))) \<and>
         (\<forall>kv \<in> set (fst (scan_loop self env ps results w)).
            \<forall>j. data (snd kv) = PJson j \<longrightarrow> (\<exists>r. json_of env r = Inr j))"
  using assms
proof (induction ps arbitrary: results w)
  case Nil
  then show ?case by simp
next
  case (Cons p ps)
  obtain s d w' where step: "scan_endpoint self env p None w = ((s, d), w')"
    by (metis prod.exhaust)
  let ?v = "\<lparr>success = s, data = d\<rparr>"
  have src: "\<forall>j. data ?v = PJson j \<longrightarrow> (\<exists>r. json_of env r = Inr j)"
    using scan_endpoint_decoded [of self env p None w s] step by auto
  have d: "distinct (map fst (dict_set results p ?v))"
    using Cons.prems(1) by (rule dict_set_distinct)
  have v: "\<forall>kv \<in> set (dict_set results p ?v).
             \<forall>j. data (snd kv) = PJson j \<longrightarrow> (\<exists>r. json_of env r = Inr j)"
    using src Cons.prems(2)
    by (rule dict_set_values [where P = "\<lambda>x. \<forall>j. data x = PJson j \<longrightarrow> (\<exists>r. json_of env r = Inr j)"])
  show ?case
    using Cons.IH [OF d v, of w'] step by simp
qed

lemma main_scan_report:
  "distinct (map fst (fst (main_scan env a w))) \<and>
   (\<forall>kv \<in> set (fst (main_scan env a w)).
      \<forall>j. data (snd kv) = PJson j \<longrightarrow> (\<exists>r. json_of env r = Inr j))"
proof -
  have "\<And>ps. distinct (map fst (fst (scan_loop
            (MetadataScanner_init (arg_timeout a) (arg_user_agent a)) env ps [] w))) \<and>
        (\<forall>kv \<in> set (fst (scan_loop
            (MetadataScanner_init (arg_timeout a) (arg_user_agent a)) env ps [] w)).
           \<forall>j. data (snd kv) = PJson j \<longrightarrow> (\<exists>r. json_of env r = Inr j))"
    by (rule scan_loop_report) simp_all
  then show ?thesis
    by (simp add: main_scan_def scan_all_endpoints_def Let_def
        split: option.splits list.splits del: scan_loop.simps)
qed

lemma report_json_wf:
  assumes "distinct (map fst results)"
    and "\<forall>kv \<in> set results. \<forall>j. data (snd kv) = PJson j \<longrightarrow> json_wf (py_to_json env j)"
  shows "json_wf (report_json env results)"
proof -
  let ?entry = "\<lambda>(k, r). (k, JObject [(''success'', JBool (success r)),
                 (''data'', case data r of PStr s \<Rightarrow> JString s | PJson j \<Rightarrow> py_to_json env j)])"
  have same: "map fst (map ?entry results) = map fst results"
    by (induction results) auto
  have keys: "distinct (map fst (map ?entry results))"
    unfolding same by (rule assms(1))
  have vals: "list_all (\<lambda>(k, v). json_wf v) (map ?entry results)"
    using assms(2) by (induction results) (auto split: pyval.splits)
  have "json_wf (JObject (map ?entry results))"
    using keys vals by (simp only: json_wf.simps simp_thms)
  then show ?thesis
    by (simp only: report_json_def)
qed

subsection \<open>C1: status codes and redirects\<close>

text \<open>
  Claim C1 as stated fails. A probe of AWS that is answered with the redirect status 302,
  which is not a 2xx status, returns \<open>True\<close> with the body of the redirect response:
  \<open>raise_for_status\<close> raises for 400 to 599 only, and nothing else in \<open>scan_endpoint\<close>
  looks at the status.
\<close>

theorem C1_redirect_counterexample:
  "\<not> (200 \<le> (302::int) \<and> (302::int) < 300) \<and>
   http_get (example_env (\<lambda>hist. answer 302 ''Found'' ''moved'')) []
     \<lparr>req_url = ''http://169.254.169.254/latest/meta-data/'', req_timeout = 5,
      req_headers = None, req_allow_redirects = False\<rparr>
     = Inr \<lparr>status_code = 302, reason = ''Found'',
            resp_url = ''http://169.254.169.254/latest/meta-data/'', resp_text = ''moved''\<rparr> \<and>
   fst (scan_endpoint scanner0 (example_env (\<lambda>hist. answer 302 ''Found'' ''moved''))
          ''AWS'' None world0) = (True, PStr ''moved'')"
  by (simp add: scan_endpoint_def scan_endpoint_try_def scanner0_def MetadataScanner_init_def
      provider_headers_def example_env_def answer_def world0_def logging_info_def
      raise_for_status_def)

text \<open>
  Claim C1, amended: a probe of any configured provider issues exactly one GET, with
  redirects disallowed, whatever the response is (so no redirect is followed). When the
  response has a status from 400 to 599, the probe returns \<open>False\<close> with the message of
  the first handler around the library's description of the status. When it has any other
  status (a 3xx like a 2xx), the status plays no part: the probe returns \<open>True\<close> with
  the body for every provider but Azure, and for Azure what the decoding of the body
  gives.
\<close>

theorem C1_status_check:
  assumes "map_of (metadata_endpoints self) p = Some url"
    and "http_get env (sent w)
           \<lparr>req_url = url, req_timeout = timeout self, req_headers = provider_headers p h,
            req_allow_redirects = False\<rparr> = Inr r"
  shows "sent (snd (scan_endpoint self env p h w)) =
           sent w @ [\<lparr>req_url = url, req_timeout = timeout self,
                      req_headers = provider_headers p h, req_allow_redirects = False\<rparr>] \<and>
         (400 \<le> status_code r \<and> status_code r < 600 \<longrightarrow>
            fst (scan_endpoint self env p h w) =
              (False, PStr (''Error accessing '' @ p @ '' metadata: '' @ str_int (status_code r)
                           @ (if status_code r < 500 then '' Client Error: ''
                              else '' Server Error: '')
                           @ reason r @ '' for url: '' @ resp_url r))) \<and>
         (\<not> (400 \<le> status_code r \<and> status_code r < 600) \<longrightarrow>
            fst (scan_endpoint self env p h w) =
              (if p = ''Azure'' then
                 (case json_of env r of
                    Inl e \<Rightarrow>
                      (False,
                       PStr (if is_RequestException e then
                               ''Error accessing Azure metadata: '' @ exn_str e
                             else if is_JSONDecodeError e then
                               ''Error decoding JSON response from Azure: '' @ exn_str e
                             else ''An unexpected error occurred: '' @ exn_str e))
                  | Inr j \<Rightarrow> (True, PJson j))
               else (True, PStr (resp_text r))))"
proof (intro conjI)
  show "sent (snd (scan_endpoint self env p h w)) =
           sent w @ [\<lparr>req_url = url, req_timeout = timeout self,
                      req_headers = provider_headers p h, req_allow_redirects = False\<rparr>]"
    using assms(1) by (rule scan_endpoint_sent)
next
  show "400 \<le> status_code r \<and> status_code r < 600 \<longrightarrow>
            fst (scan_endpoint self env p h w) =
              (False, PStr (''Error accessing '' @ p @ '' metadata: '' @ str_int (status_code r)
                           @ (if status_code r < 500 then '' Client Error: ''
                              else '' Server Error: '')
                           @ reason r @ '' for url: '' @ resp_url r))"
    by (simp add: scan_endpoint_result assms raise_for_status_cases error_message_HTTPError)
next
  show "\<not> (400 \<le> status_code r \<and> status_code r < 600) \<longrightarrow>
            fst (scan_endpoint self env p h w) =
              (if p = ''Azure'' then
                 (case json_of env r of
                    Inl e \<Rightarrow>
                      (False,
                       PStr (if is_RequestException e then
                               ''Error accessing Azure metadata: '' @ exn_str e
                             else if is_JSONDecodeError e then
                               ''Error decoding JSON response from Azure: '' @ exn_str e
                             else ''An unexpected error occurred: '' @ exn_str e))
                  | Inr j \<Rightarrow> (True, PJson j))
               else (True, PStr (resp_text r)))"
    by (simp add: scan_endpoint_result assms raise_for_status_cases error_message_def
        split: sum.splits)
qed

text \<open>
  Claim C1, the amended statement at concrete inputs: the Azure probe on a host whose
  169.254.169.254 answers the Azure path with 404, and the GCP probe answered with the
  redirect status 301.
\<close>

theorem C1_status_check_witness:
  "fst (scan_endpoint scanner0 (example_env aws_host_get) ''Azure'' None world0) =
     (False, PStr ''Error accessing Azure metadata: 404 Client Error: Not Found for url: http://169.254.169.254/metadata/instance?api-version=2020-09-01'') \<and>
   fst (scan_endpoint scanner0 (example_env (\<lambda>hist. answer 301 ''Moved Permanently'' ''gone''))
          ''GCP'' None world0) = (True, PStr ''gone'') \<and>
   sent (snd (scan_endpoint scanner0 (example_env (\<lambda>hist. answer 301 ''Moved Permanently'' ''gone''))
          ''GCP'' None world0)) =
     [\<lparr>req_url = ''http://metadata.google.internal/computeMetadata/v1/'', req_timeout = 5,
       req_headers = Some [(''Metadata-Flavor'', ''Google'')], req_allow_redirects = False\<rparr>]"
proof -
  have u: "map_of (metadata_endpoints scanner0) ''Azure'' =
             Some ''http://169.254.169.254/metadata/instance?api-version=2020-09-01''"
    by (simp add: scanner0_def)
  have g: "http_get (example_env aws_host_get) (sent world0)
             \<lparr>req_url = ''http://169.254.169.254/metadata/instance?api-version=2020-09-01'',
              req_timeout = timeout scanner0, req_headers = provider_headers ''Azure'' None,
              req_allow_redirects = False\<rparr>
           = Inr \<lparr>status_code = 404, reason = ''Not Found'',
                  resp_url = ''http://169.254.169.254/metadata/instance?api-version=2020-09-01'',
                  resp_text = []\<rparr>"
    by (simp add: example_env_def aws_host_get_def answer_def)
  have d: "str_int 404 = ''404''"
    by code_simp
  have first: "fst (scan_endpoint scanner0 (example_env aws_host_get) ''Azure'' None world0) =
     (False, PStr ''Error accessing Azure metadata: 404 Client Error: Not Found for url: http://169.254.169.254/metadata/instance?api-version=2020-09-01'')"
    using conjunct1 [OF conjunct2 [OF C1_status_check [OF u g]]] d by simp
  have u2: "map_of (metadata_endpoints scanner0) ''GCP'' =
             Some ''http://metadata.google.internal/computeMetadata/v1/''"
    by (simp add: scanner0_def)
  have g2: "http_get (example_env (\<lambda>hist. answer 301 ''Moved Permanently'' ''gone'')) (sent world0)
             \<lparr>req_url = ''http://metadata.google.internal/computeMetadata/v1/'',
              req_timeout = timeout scanner0, req_headers = provider_headers ''GCP'' None,
              req_allow_redirects = False\<rparr>
           = Inr \<lparr>status_code = 301, reason = ''Moved Permanently'',
                  resp_url = ''http://metadata.google.internal/computeMetadata/v1/'',
                  resp_text = ''gone''\<rparr>"
    by (simp add: example_env_def answer_def)
  note second = C1_status_check [OF u2 g2]
  have passes: "fst (scan_endpoint scanner0
                  (example_env (\<lambda>hist. answer 301 ''Moved Permanently'' ''gone''))
                  ''GCP'' None world0) = (True, PStr ''gone'')"
    using conjunct2 [OF conjunct2 [OF second]] by simp
  have one: "sent (snd (scan_endpoint scanner0
                  (example_env (\<lambda>hist. answer 301 ''Moved Permanently'' ''gone''))
                  ''GCP'' None world0)) =
     [\<lparr>req_url = ''http://metadata.google.internal/computeMetadata/v1/'', req_timeout = 5,
       req_headers = Some [(''Metadata-Flavor'', ''Google'')], req_allow_redirects = False\<rparr>]"
    using conjunct1 [OF second] by (simp add: scanner0_def world0_def provider_headers_def)
  show ?thesis
    using first passes one by (intro conjI)
qed

subsection \<open>C2: the user agent\<close>

text \<open>
  \<open>scan_endpoint\<close> never reads \<open>user_agent\<close>: the field is stored by \<open>__init__\<close> and
  passed to no call.
\<close>

lemma scan_endpoint_ignores_user_agent:
  "scan_endpoint (self\<lparr>user_agent := ua\<rparr>) env p h w = scan_endpoint self env p h w"
  by (cases "map_of (metadata_endpoints self) p")
     (simp_all add: scan_endpoint_def scan_endpoint_try_def)

text \<open>
  Claim C2 fails on the code. Run with \<open>-u MyCustomScanner/1.0 --providers AWS\<close>, the
  program issues one GET whose \<open>headers\<close> argument is \<open>None\<close>: the configured user agent
  is in no request (the library then sends its own default \<open>User-Agent\<close>). The docstring
  of \<open>__init__\<close> and the help of \<open>--user-agent\<close> both call it the user agent string for
  HTTP requests.
\<close>

theorem C2_user_agent_not_sent:
  "sent (snd (main (example_env aws_host_get)
                (default_args\<lparr>arg_user_agent := ''MyCustomScanner/1.0'',
                              arg_providers := Some [''AWS'']\<rparr>) world0)) =
     [\<lparr>req_url = ''http://169.254.169.254/latest/meta-data/'', req_timeout = 5,
       req_headers = None, req_allow_redirects = False\<rparr>]"
  by (simp add: main_positive sent_main_output main_scan_providers scan_loop_sent
      probe_requests_init default_args_def world0_def del: scan_loop.simps)

subsection \<open>C3: a body that is not JSON\<close>

text \<open>
  Which handler catches a failure of \<open>response.json()\<close> depends on the class of the
  exception. The standard library's \<open>json.JSONDecodeError\<close> (raised by requests before
  2.27) passes the first handler and reaches the second, with the decoding message.
\<close>

lemma azure_bad_json_before_2_27:
  assumes "map_of (metadata_endpoints self) ''Azure'' = Some url"
    and "http_get env (sent w)
           \<lparr>req_url = url, req_timeout = timeout self,
            req_headers = provider_headers ''Azure'' h, req_allow_redirects = False\<rparr> = Inr r"
    and "raise_for_status r = None"
    and "json_of env r = Inl (JSONDecodeError m)"
  shows "fst (scan_endpoint self env ''Azure'' h w) =
           (False, PStr (''Error decoding JSON response from Azure: '' @ m))"
  using assms
  by (simp add: scan_endpoint_def scan_endpoint_try_def Let_def error_message_def)

text \<open>
  \<open>requests.exceptions.JSONDecodeError\<close> (raised from 2.27 on) is a \<open>RequestException\<close>
  as well, so the first handler catches it and the second is never reached.
\<close>

lemma azure_bad_json_from_2_27:
  assumes "map_of (metadata_endpoints self) ''Azure'' = Some url"
    and "http_get env (sent w)
           \<lparr>req_url = url, req_timeout = timeout self,
            req_headers = provider_headers ''Azure'' h, req_allow_redirects = False\<rparr> = Inr r"
    and "raise_for_status r = None"
    and "json_of env r = Inl (RequestsJSONDecodeError m)"
  shows "fst (scan_endpoint self env ''Azure'' h w) =
           (False, PStr (''Error accessing Azure metadata: '' @ m))"
  using assms
  by (simp add: scan_endpoint_def scan_endpoint_try_def Let_def error_message_def)

text \<open>
  Claim C3 fails on the code with requests 2.27 or later: the Azure probe answered 200
  with the body \<open><html>\<close> returns the generic request-error message, not the decoding
  one.
\<close>

theorem C3_azure_bad_json_message:
  "fst (scan_endpoint scanner0 (example_env (\<lambda>hist. answer 200 ''OK'' ''<html>'')) ''Azure'' None
          world0) =
     (False, PStr ''Error accessing Azure metadata: Expecting value: line 1 column 1 (char 0)'')"
  by (simp add: scan_endpoint_def scan_endpoint_try_def scanner0_def MetadataScanner_init_def
      provider_headers_def example_env_def answer_def world0_def logging_info_def
      raise_for_status_def example_json_of_def azure_body_def encode_string_def error_message_def)

subsection \<open>C4: the data of a result\<close>

text \<open>
  Claim C4 as stated fails: the Azure probe answered 200 with a JSON body returns the
  decoded object itself, which is not a string (and not the body's text).
\<close>

theorem C4_azure_data_counterexample:
  "fst (scan_endpoint scanner0 (example_env (\<lambda>hist. answer 200 ''OK'' azure_body)) ''Azure'' None
          world0) = (True, PJson (JObject [(''vmId'', JString ''abc'')])) \<and>
   (PJson (JObject [(''vmId'', JString ''abc'')]) :: json pyval) \<noteq> PStr azure_body"
  by (simp add: scan_endpoint_def scan_endpoint_try_def scanner0_def MetadataScanner_init_def
      provider_headers_def example_env_def answer_def world0_def logging_info_def
      raise_for_status_def example_json_of_def)

text \<open>
  Claim C4, amended: the data and the flag of a result, in every case. The probe fails,
  and its data is a string, the message of the handler that catches the exception, in
  four cases: the provider is not configured (the \<open>KeyError\<close> of the lookup),
  \<open>requests.get\<close> raises, the status is from 400 to 599 (the \<open>HTTPError\<close> of
  \<open>raise_for_status\<close>), and, for Azure, \<open>response.json()\<close> raises. Otherwise it
  succeeds, and its data is the raw body as a string for every provider but Azure, and
  for Azure the object \<open>response.json()\<close> decoded, as it is.
\<close>

theorem C4_data_of_result:
  "snd (fst (scan_endpoint self env p h w)) =
     (case map_of (metadata_endpoints self) p of
        None \<Rightarrow> PStr (''An unexpected error occurred: '' @ py_repr env p)
      | Some url \<Rightarrow>
          (case http_get env (sent w)
                  \<lparr>req_url = url, req_timeout = timeout self,
                   req_headers = provider_headers p h, req_allow_redirects = False\<rparr> of
             Inl e \<Rightarrow>
               PStr (if is_RequestException e then
                       ''Error accessing '' @ p @ '' metadata: '' @ exn_str e
                     else if is_JSONDecodeError e then
                       ''Error decoding JSON response from '' @ p @ '': '' @ exn_str e
                     else ''An unexpected error occurred: '' @ exn_str e)
           | Inr r \<Rightarrow>
               if 400 \<le> status_code r \<and> status_code r < 600 then
                 PStr (''Error accessing '' @ p @ '' metadata: '' @ str_int (status_code r)
                       @ (if status_code r < 500 then '' Client Error: '' else '' Server Error: '')
                       @ reason r @ '' for url: '' @ resp_url r)
               else if p = ''Azure'' then
                 (case json_of env r of
                    Inl e \<Rightarrow>
                      PStr (if is_RequestException e then
                              ''Error accessing '' @ p @ '' metadata: '' @ exn_str e
                            else if is_JSONDecodeError e then
                              ''Error decoding JSON response from '' @ p @ '': '' @ exn_str e
                            else ''An unexpected error occurred: '' @ exn_str e)
                  | Inr j \<Rightarrow> PJson j)
               else PStr (resp_text r))) \<and>
   fst (fst (scan_endpoint self env p h w)) =
     (case map_of (metadata_endpoints self) p of
        None \<Rightarrow> False
      | Some url \<Rightarrow>
          (case http_get env (sent w)
                  \<lparr>req_url = url, req_timeout = timeout self,
                   req_headers = provider_headers p h, req_allow_redirects = False\<rparr> of
             Inl e \<Rightarrow> False
           | Inr r \<Rightarrow>
               if 400 \<le> status_code r \<and> status_code r < 600 then False
               else if p = ''Azure'' then
                 (case json_of env r of Inl e \<Rightarrow> False | Inr j \<Rightarrow> True)
               else True))"
  by (simp add: scan_endpoint_result raise_for_status_cases error_message_def
      split: option.splits sum.splits)

text \<open>
  Claim C4, the amended statement at concrete inputs: on an AWS host the AWS probe has
  the body as data, and the GCP probe the message of the connection error.
\<close>

theorem C4_data_of_result_witness:
  "snd (fst (scan_endpoint scanner0 (example_env aws_host_get) ''AWS'' None world0)) =
     PStr ''ami-id'' \<and>
   snd (fst (scan_endpoint scanner0 (example_env aws_host_get) ''GCP'' None world0)) =
     PStr ''Error accessing GCP metadata: Failed to resolve metadata.google.internal'' \<and>
   fst (fst (scan_endpoint scanner0 (example_env aws_host_get) ''GCP'' None world0)) = False"
proof -
  have aws: "snd (fst (scan_endpoint scanner0 (example_env aws_host_get) ''AWS'' None world0)) =
     PStr ''ami-id''"
    unfolding conjunct1 [OF C4_data_of_result]
    by (simp add: scanner0_def example_env_def aws_host_get_def answer_def)
  have gcp: "snd (fst (scan_endpoint scanner0 (example_env aws_host_get) ''GCP'' None world0)) =
     PStr ''Error accessing GCP metadata: Failed to resolve metadata.google.internal''"
    unfolding conjunct1 [OF C4_data_of_result]
    by (simp add: scanner0_def example_env_def aws_host_get_def error_message_def)
  have flag: "fst (fst (scan_endpoint scanner0 (example_env aws_host_get) ''GCP'' None world0))
                = False"
    unfolding conjunct2 [OF C4_data_of_result]
    by (simp add: scanner0_def example_env_def aws_host_get_def)
  show ?thesis
    using aws gcp flag by (intro conjI)
qed

subsection \<open>C5: scanning all endpoints\<close>

text \<open>
  Claim C5: \<open>scan_all_endpoints\<close> is the three probes AWS, Azure, GCP, each run once in
  the world the one before left, each with an entry of its own in the report, whatever the
  network, the decoder and the probes before it do; so it issues exactly the three GETs
  in this order, and the keys of the report are the three names in this order.
\<close>

theorem C5_scan_all_endpoints:
  "scan_all_endpoints (MetadataScanner_init t ua) env w =
     (case scan_endpoint (MetadataScanner_init t ua) env ''AWS'' None w of
        ((s1, d1), w1) \<Rightarrow>
          (case scan_endpoint (MetadataScanner_init t ua) env ''Azure'' None w1 of
             ((s2, d2), w2) \<Rightarrow>
               (case scan_endpoint (MetadataScanner_init t ua) env ''GCP'' None w2 of
                  ((s3, d3), w3) \<Rightarrow>
                    ([(''AWS'', \<lparr>success = s1, data = d1\<rparr>),
                      (''Azure'', \<lparr>success = s2, data = d2\<rparr>),
                      (''GCP'', \<lparr>success = s3, data = d3\<rparr>)], w3)))) \<and>
   sent (snd (scan_all_endpoints (MetadataScanner_init t ua) env w)) =
     sent w @
     [\<lparr>req_url = ''http://169.254.169.254/latest/meta-data/'', req_timeout = t,
       req_headers = None, req_allow_redirects = False\<rparr>,
      \<lparr>req_url = ''http://169.254.169.254/metadata/instance?api-version=2020-09-01'',
       req_timeout = t, req_headers = Some [(''Metadata'', ''true'')],
       req_allow_redirects = False\<rparr>,
      \<lparr>req_url = ''http://metadata.google.internal/computeMetadata/v1/'', req_timeout = t,
       req_headers = Some [(''Metadata-Flavor'', ''Google'')], req_allow_redirects = False\<rparr>] \<and>
   map fst (fst (scan_all_endpoints (MetadataScanner_init t ua) env w)) =
     [''AWS'', ''Azure'', ''GCP'']"
proof (intro conjI)
  show "scan_all_endpoints (MetadataScanner_init t ua) env w =
     (case scan_endpoint (MetadataScanner_init t ua) env ''AWS'' None w of
        ((s1, d1), w1) \<Rightarrow>
          (case scan_endpoint (MetadataScanner_init t ua) env ''Azure'' None w1 of
             ((s2, d2), w2) \<Rightarrow>
               (case scan_endpoint (MetadataScanner_init t ua) env ''GCP'' None w2 of
                  ((s3, d3), w3) \<Rightarrow>
                    ([(''AWS'', \<lparr>success = s1, data = d1\<rparr>),
                      (''Azure'', \<lparr>success = s2, data = d2\<rparr>),
                      (''GCP'', \<lparr>success = s3, data = d3\<rparr>)], w3))))"
    by (simp add: scan_all_endpoints_def init_keys split: prod.splits)
next
  have "probe_requests (MetadataScanner_init t ua) [''AWS'', ''Azure'', ''GCP''] =
          probe_requests (MetadataScanner_init t ua) [''AWS'']
          @ probe_requests (MetadataScanner_init t ua) [''Azure'']
          @ probe_requests (MetadataScanner_init t ua) [''GCP'']"
    by (simp add: probe_requests_def)
  then show "sent (snd (scan_all_endpoints (MetadataScanner_init t ua) env w)) =
     sent w @
     [\<lparr>req_url = ''http://169.254.169.254/latest/meta-data/'', req_timeout = t,
       req_headers = None, req_allow_redirects = False\<rparr>,
      \<lparr>req_url = ''http://169.254.169.254/metadata/instance?api-version=2020-09-01'',
       req_timeout = t, req_headers = Some [(''Metadata'', ''true'')],
       req_allow_redirects = False\<rparr>,
      \<lparr>req_url = ''http://metadata.google.internal/computeMetadata/v1/'', req_timeout = t,
       req_headers = Some [(''Metadata-Flavor'', ''Google'')], req_allow_redirects = False\<rparr>]"
    by (simp add: scan_all_endpoints_def init_keys scan_loop_sent probe_requests_init
        del: scan_loop.simps)
next
  show "map fst (fst (scan_all_endpoints (MetadataScanner_init t ua) env w)) =
     [''AWS'', ''Azure'', ''GCP'']"
    using scan_loop_keys_distinct [of "[]" "[''AWS'', ''Azure'', ''GCP'']"
            "MetadataScanner_init t ua" env w]
    by (simp add: scan_all_endpoints_def init_keys del: scan_loop.simps)
qed

text \<open>
  Claim C5 at a concrete input: on an AWS host the Azure probe fails with 404 and the GCP
  probe fails to connect, and all three are probed and reported.
\<close>

theorem C5_scan_all_endpoints_witness:
  "map (\<lambda>(k, r). (k, success r)) (fst (scan_all_endpoints scanner0 (example_env aws_host_get) world0))
     = [(''AWS'', True), (''Azure'', False), (''GCP'', False)] \<and>
   map req_url (sent (snd (scan_all_endpoints scanner0 (example_env aws_host_get) world0))) =
     [''http://169.254.169.254/latest/meta-data/'',
      ''http://169.254.169.254/metadata/instance?api-version=2020-09-01'',
      ''http://metadata.google.internal/computeMetadata/v1/'']"
proof -
  note run = C5_scan_all_endpoints [of 5 "''vuln-Cloud-Metadata-Scanner/1.0''"
               "example_env aws_host_get" world0]
  have flags: "map (\<lambda>(k, r). (k, success r))
                 (fst (scan_all_endpoints scanner0 (example_env aws_host_get) world0))
               = [(''AWS'', True), (''Azure'', False), (''GCP'', False)]"
    unfolding scanner0_def conjunct1 [OF run]
    by (simp add: scan_endpoint_def scan_endpoint_try_def MetadataScanner_init_def
        provider_headers_def example_env_def aws_host_get_def answer_def world0_def
        logging_info_def logging_error_def raise_for_status_def)
  have urls: "map req_url (sent (snd (scan_all_endpoints scanner0 (example_env aws_host_get)
                world0))) =
     [''http://169.254.169.254/latest/meta-data/'',
      ''http://169.254.169.254/metadata/instance?api-version=2020-09-01'',
      ''http://metadata.google.internal/computeMetadata/v1/'']"
    unfolding scanner0_def conjunct1 [OF conjunct2 [OF run]]
    by (simp add: world0_def)
  show ?thesis
    using flags urls by (rule conjI)
qed

subsection \<open>C6: a timeout that is not positive\<close>

text \<open>
  Claim C6: with a timeout of 0 or less, \<open>main\<close> prints the error and exits with status
  1; the world it leaves differs from the one it found by that printed line only, so no
  request was issued, and the result does not depend on the libraries.
\<close>

theorem C6_nonpositive_timeout:
  "arg_timeout a \<le> 0 \<Longrightarrow>
   main env a w = (1, w\<lparr>stdout := stdout w @ [''Error: Timeout value must be greater than 0.'']\<rparr>)
   \<and> sent (snd (main env a w)) = sent w"
  by (simp add: main_def py_print_def)

text \<open>Claim C6 at a concrete input: \<open>--timeout -3\<close>.\<close>

theorem C6_nonpositive_timeout_witness:
  "arg_timeout (default_args\<lparr>arg_timeout := - 3\<rparr>) \<le> 0 \<and>
   fst (main (example_env aws_host_get) (default_args\<lparr>arg_timeout := - 3\<rparr>) world0) = 1 \<and>
   sent (snd (main (example_env aws_host_get) (default_args\<lparr>arg_timeout := - 3\<rparr>) world0)) = []"
  using C6_nonpositive_timeout [of "default_args\<lparr>arg_timeout := - 3\<rparr>"
          "example_env aws_host_get" world0]
  by (simp add: world0_def)

subsection \<open>C7: an explicit list of providers\<close>

text \<open>
  Claim C7: with a positive timeout and \<open>--providers\<close> given (one or more names among
  AWS, Azure, GCP), \<open>main\<close> issues the GETs of exactly these providers in the order given,
  and the report it outputs has exactly these names as keys, in the order given when no
  name is repeated.
\<close>

theorem C7_providers_subset:
  assumes "0 < arg_timeout a" and "arg_providers a = Some ps" and "ps \<noteq> []"
    and "set ps \<subseteq> {''AWS'', ''Azure'', ''GCP''}"
  shows "sent (snd (main env a w)) =
           sent w @
           map (\<lambda>p. \<lparr>req_url =
                   (if p = ''AWS'' then ''http://169.254.169.254/latest/meta-data/''
                    else if p = ''Azure'' then
                      ''http://169.254.169.254/metadata/instance?api-version=2020-09-01''
                    else ''http://metadata.google.internal/computeMetadata/v1/''),
                req_timeout = arg_timeout a,
                req_headers =
                   (if p = ''GCP'' then Some [(''Metadata-Flavor'', ''Google'')]
                    else if p = ''Azure'' then Some [(''Metadata'', ''true'')]
                    else None),
                req_allow_redirects = False\<rparr>) ps \<and>
         main env a w = main_output env a (fst (main_scan env a w)) (snd (main_scan env a w)) \<and>
         set (map fst (fst (main_scan env a w))) = set ps \<and>
         (distinct ps \<longrightarrow> map fst (fst (main_scan env a w)) = ps)"
proof -
  let ?sc = "MetadataScanner_init (arg_timeout a) (arg_user_agent a)"
  have scan: "main_scan env a w = scan_loop ?sc env ps [] w"
    using assms(2,3) by (rule main_scan_providers)
  have m: "main env a w = main_output env a (fst (main_scan env a w)) (snd (main_scan env a w))"
    using assms(1) by (rule main_positive)
  have s: "sent (snd (main env a w)) = sent w @ probe_requests ?sc ps"
    by (simp add: m sent_main_output scan scan_loop_sent)
  have k: "set (map fst (fst (main_scan env a w))) = set ps"
    using scan_loop_key_set [of ?sc env ps "[]" w] by (simp add: scan)
  have d: "distinct ps \<longrightarrow> map fst (fst (main_scan env a w)) = ps"
    using scan_loop_keys_distinct [of "[]" ps ?sc env w] by (simp add: scan)
  show ?thesis
    using s m k d probe_requests_choices [OF assms(4), of "arg_timeout a" "arg_user_agent a"]
    by simp
qed

text \<open>Claim C7 at a concrete input: \<open>--providers AWS\<close>.\<close>

theorem C7_providers_subset_witness:
  "sent (snd (main (example_env aws_host_get) (default_args\<lparr>arg_providers := Some [''AWS'']\<rparr>)
                world0)) =
     [\<lparr>req_url = ''http://169.254.169.254/latest/meta-data/'', req_timeout = 5,
       req_headers = None, req_allow_redirects = False\<rparr>] \<and>
   map fst (fst (main_scan (example_env aws_host_get)
                   (default_args\<lparr>arg_providers := Some [''AWS'']\<rparr>) world0)) = [''AWS'']"
proof -
  let ?a = "default_args\<lparr>arg_providers := Some [''AWS'']\<rparr>"
  have t: "0 < arg_timeout ?a"
    by (simp add: default_args_def)
  have p: "arg_providers ?a = Some [''AWS'']"
    by simp
  have n: "[''AWS''] \<noteq> []"
    by simp
  have c: "set [''AWS''] \<subseteq> {''AWS'', ''Azure'', ''GCP''}"
    by simp
  have t5: "arg_timeout default_args = 5"
    by (simp add: default_args_def)
  have s0: "sent world0 = []"
    by (simp add: world0_def)
  note run = C7_providers_subset [OF t p n c, of "example_env aws_host_get" world0]
  have probes: "sent (snd (main (example_env aws_host_get) ?a world0)) =
                  [\<lparr>req_url = ''http://169.254.169.254/latest/meta-data/'', req_timeout = 5,
                    req_headers = None, req_allow_redirects = False\<rparr>]"
    using conjunct1 [OF run] t5 s0 by simp
  have keys: "map fst (fst (main_scan (example_env aws_host_get) ?a world0)) = [''AWS'']"
    using conjunct2 [OF conjunct2 [OF conjunct2 [OF run]]] by simp
  show ?thesis
    using probes keys by (rule conjI)
qed

subsection \<open>C8: the request of a probe\<close>

text \<open>
  Claim C8: a probe of AWS, Azure or GCP issues one GET to that provider's URL; with no
  headers argument its headers are \<open>None\<close> for AWS, \<open>Metadata: true\<close> for Azure and
  \<open>Metadata-Flavor: Google\<close> for GCP, and with a headers argument they are that
  argument unchanged.
\<close>

theorem C8_request_of_probe:
  "sent (snd (scan_endpoint (MetadataScanner_init t ua) env ''AWS'' h w)) =
     sent w @ [\<lparr>req_url = ''http://169.254.169.254/latest/meta-data/'', req_timeout = t,
                req_headers = h, req_allow_redirects = False\<rparr>] \<and>
   sent (snd (scan_endpoint (MetadataScanner_init t ua) env ''Azure'' h w)) =
     sent w @ [\<lparr>req_url = ''http://169.254.169.254/metadata/instance?api-version=2020-09-01'',
                req_timeout = t,
                req_headers = (case h of None \<Rightarrow> Some [(''Metadata'', ''true'')]
                               | Some hs \<Rightarrow> Some hs),
                req_allow_redirects = False\<rparr>] \<and>
   sent (snd (scan_endpoint (MetadataScanner_init t ua) env ''GCP'' h w)) =
     sent w @ [\<lparr>req_url = ''http://metadata.google.internal/computeMetadata/v1/'',
                req_timeout = t,
                req_headers = (case h of None \<Rightarrow> Some [(''Metadata-Flavor'', ''Google'')]
                               | Some hs \<Rightarrow> Some hs),
                req_allow_redirects = False\<rparr>]"
  by (simp add: scan_endpoint_sent [OF init_endpoints(1)] scan_endpoint_sent [OF init_endpoints(2)]
      scan_endpoint_sent [OF init_endpoints(3)] provider_headers_def split: option.splits)

text \<open>
  Claim C8 at concrete inputs: the GCP probe without headers, and with the explicit
  headers \<open>X-Probe: 1\<close>.
\<close>

theorem C8_request_of_probe_witness:
  "sent (snd (scan_endpoint scanner0 (example_env aws_host_get) ''GCP'' None world0)) =
     [\<lparr>req_url = ''http://metadata.google.internal/computeMetadata/v1/'', req_timeout = 5,
       req_headers = Some [(''Metadata-Flavor'', ''Google'')], req_allow_redirects = False\<rparr>] \<and>
   sent (snd (scan_endpoint scanner0 (example_env aws_host_get) ''GCP''
                 (Some [(''X-Probe'', ''1'')]) world0)) =
     [\<lparr>req_url = ''http://metadata.google.internal/computeMetadata/v1/'', req_timeout = 5,
       req_headers = Some [(''X-Probe'', ''1'')], req_allow_redirects = False\<rparr>]"
  using C8_request_of_probe [of 5 "''vuln-Cloud-Metadata-Scanner/1.0''"
          "example_env aws_host_get" None world0]
        C8_request_of_probe [of 5 "''vuln-Cloud-Metadata-Scanner/1.0''"
          "example_env aws_host_get" "Some [(''X-Probe'', ''1'')]" world0]
  by (simp add: scanner0_def world0_def)

subsection \<open>C9: the file and the standard output\<close>

text \<open>
  What \<open>main\<close> does with the report, in each case of lines 160 to 169: the text is
  written, a write or the close fails, \<open>open\<close> fails, or the text is printed.
\<close>

lemma main_output_written:
  assumes "path \<noteq> []" and "open_w env path = None"
    and "write_w env path (iterencode 0 (report_json env results)) = None"
  shows "main_output env (a\<lparr>arg_output := Some path\<rparr>) results w =
           (0, py_print (''Scan results saved to '' @ path)
                 (w\<lparr>files := (files w)(path \<mapsto> json_dumps (report_json env results))\<rparr>))"
proof -
  obtain c cs where p: "path = c # cs"
    using assms(1) by (cases path) auto
  show ?thesis
    using assms(2,3) by (simp add: main_output_def p written_iterencode)
qed

lemma main_output_write_fails:
  assumes "path \<noteq> []" and "open_w env path = None"
    and "write_w env path (iterencode 0 (report_json env results)) = Some (e, kept)"
  shows "main_output env (a\<lparr>arg_output := Some path\<rparr>) results w =
           (1, py_print (''Error writing to output file: '' @ exn_str e)
                 (w\<lparr>files := (files w)(path \<mapsto> kept)\<rparr>))"
proof -
  obtain c cs where p: "path = c # cs"
    using assms(1) by (cases path) auto
  show ?thesis
    using assms(2,3) by (simp add: main_output_def p)
qed

lemma main_output_open_fails:
  assumes "path \<noteq> []" and "open_w env path = Some e"
  shows "main_output env (a\<lparr>arg_output := Some path\<rparr>) results w =
           (1, py_print (''Error writing to output file: '' @ exn_str e) w)"
proof -
  obtain c cs where p: "path = c # cs"
    using assms(1) by (cases path) auto
  show ?thesis
    using assms(2) by (simp add: main_output_def p)
qed

lemma main_output_printed:
  "main_output env (a\<lparr>arg_output := None\<rparr>) results w =
     (0, py_print (json_dumps (report_json env results)) w)"
  by (simp add: main_output_def)

text \<open>
  Claim C9: from the same world and with the same outside, a run with \<open>--output path\<close>
  (the file opening and the writing succeeding) and a run without it both exit with
  status 0; the text the first leaves in the file, replacing what the file held, is the
  text the second prints, the encoding of the report with an indent of 4; and
  \<open>json.loads\<close> reads the report back from it. The decoded objects in the report are
  taken to be dicts with distinct keys, as every Python dict is.
\<close>

theorem C9_file_and_stdout_agree:
  assumes "0 < arg_timeout a" and "path \<noteq> []" and "open_w env path = None"
    and "write_w env path (iterencode 0 (report_json env (fst (main_scan env a w)))) = None"
    and "\<forall>r j. json_of env r = Inr j \<longrightarrow> json_wf (py_to_json env j)"
  shows "\<exists>text.
           text = json_dumps (report_json env (fst (main_scan env a w))) \<and>
           fst (main env (a\<lparr>arg_output := Some path\<rparr>) w) = 0 \<and>
           files (snd (main env (a\<lparr>arg_output := Some path\<rparr>) w)) path = Some text \<and>
           stdout (snd (main env (a\<lparr>arg_output := Some path\<rparr>) w)) =
             stdout w @ [''Scan results saved to '' @ path] \<and>
           fst (main env (a\<lparr>arg_output := None\<rparr>) w) = 0 \<and>
           stdout (snd (main env (a\<lparr>arg_output := None\<rparr>) w)) = stdout w @ [text] \<and>
           json_loads text = Some (report_json env (fst (main_scan env a w)))"
proof -
  let ?results = "fst (main_scan env a w)"
  let ?w1 = "snd (main_scan env a w)"
  have to_file: "main env (a\<lparr>arg_output := Some path\<rparr>) w =
           (0, py_print (''Scan results saved to '' @ path)
                 (?w1\<lparr>files := (files ?w1)(path \<mapsto> json_dumps (report_json env ?results))\<rparr>))"
    using assms(1) main_output_written [OF assms(2,3,4)]
    by (simp add: main_positive main_scan_output_irrelevant)
  have to_out: "main env (a\<lparr>arg_output := None\<rparr>) w =
           (0, py_print (json_dumps (report_json env ?results)) ?w1)"
    using assms(1) by (simp add: main_positive main_scan_output_irrelevant main_output_printed)
  have keys: "distinct (map fst ?results)"
    using main_scan_report [of env a w] by blast
  have "\<forall>kv \<in> set ?results. \<forall>j. data (snd kv) = PJson j \<longrightarrow> json_wf (py_to_json env j)"
    using main_scan_report [of env a w] assms(5) by blast
  with keys have "json_wf (report_json env ?results)"
    by (rule report_json_wf)
  then have parsed: "json_loads (json_dumps (report_json env ?results))
                     = Some (report_json env ?results)"
    by (rule json_loads_dumps)
  show ?thesis
    using parsed by (simp add: to_file to_out py_print_def stdout_main_scan)
qed

text \<open>
  Claim C9 at a concrete input: the default arguments and \<open>--output out.json\<close> on an
  Azure host, where the report holds two error messages and one decoded object.
\<close>

theorem C9_file_and_stdout_agree_witness:
  "report_json (example_env azure_host_get)
     (fst (main_scan (example_env azure_host_get) default_args world0)) =
     JObject
       [(''AWS'', JObject [(''success'', JBool False),
           (''data'', JString ''Error accessing AWS metadata: 404 Client Error: Not Found for url: http://169.254.169.254/latest/meta-data/'')]),
        (''Azure'', JObject [(''success'', JBool True),
           (''data'', JObject [(''vmId'', JString ''abc'')])]),
        (''GCP'', JObject [(''success'', JBool False),
           (''data'', JString ''Error accessing GCP metadata: Failed to resolve metadata.google.internal'')])] \<and>
   (\<exists>text.
      files (snd (main (example_env azure_host_get)
                    (default_args\<lparr>arg_output := Some ''out.json''\<rparr>) world0)) ''out.json''
        = Some text \<and>
      stdout (snd (main (example_env azure_host_get) (default_args\<lparr>arg_output := None\<rparr>)
                     world0)) = [text] \<and>
      json_loads text =
        Some (report_json (example_env azure_host_get)
                (fst (main_scan (example_env azure_host_get) default_args world0))))"
proof -
  let ?env = "example_env azure_host_get"
  have t: "0 < arg_timeout default_args"
    by (simp add: default_args_def)
  have p: "''out.json'' \<noteq> []"
    by simp
  have ok: "open_w ?env ''out.json'' = None"
    by (simp add: example_env_def)
  have wr: "write_w ?env ''out.json''
              (iterencode 0 (report_json ?env (fst (main_scan ?env default_args world0)))) = None"
    by (simp add: example_env_def)
  have decoded: "\<forall>r j. json_of ?env r = Inr j \<longrightarrow> json_wf (py_to_json ?env j)"
    by (auto simp: example_env_def example_json_of_def split: if_splits)
  have d: "str_int 404 = ''404''"
    by code_simp
  have report: "report_json ?env (fst (main_scan ?env default_args world0)) =
     JObject
       [(''AWS'', JObject [(''success'', JBool False),
           (''data'', JString ''Error accessing AWS metadata: 404 Client Error: Not Found for url: http://169.254.169.254/latest/meta-data/'')]),
        (''Azure'', JObject [(''success'', JBool True),
           (''data'', JObject [(''vmId'', JString ''abc'')])]),
        (''GCP'', JObject [(''success'', JBool False),
           (''data'', JString ''Error accessing GCP metadata: Failed to resolve metadata.google.internal'')])]"
    by (simp add: report_json_def main_scan_def default_args_def scan_all_endpoints_def
        MetadataScanner_init_def scan_endpoint_def scan_endpoint_try_def provider_headers_def
        example_env_def azure_host_get_def answer_def world0_def logging_info_def
        logging_error_def raise_for_status_def example_json_of_def error_message_def d)
  have s0: "stdout world0 = []"
    by (simp add: world0_def)
  show ?thesis
    using C9_file_and_stdout_agree [OF t p ok wr decoded] report s0 by auto
qed

subsection \<open>C10: what leaves \<open>scan_endpoint\<close>\<close>








end
